theory Spec2Isabelle
  imports Complex_Main "HOL-Library.Sublist"
begin

section \<open>JavaScript values used by the catalog item\<close>

text \<open>
  \<^verbatim>\<open>String.prototype.split(sep)\<close> with a one-character separator: the pieces between
  the separators, in order. The empty string splits into one empty piece.
\<close>

fun split :: "char \<Rightarrow> string \<Rightarrow> string list" where
  "split c [] = [[]]"
| "split c (x # xs) =
     (if x = c then [] # split c xs
      else (case split c xs of [] \<Rightarrow> [[x]] | p # ps \<Rightarrow> (x # p) # ps))"

text \<open>\<^verbatim>\<open>Array.prototype.join(sep)\<close> on an array of strings.\<close>

fun join :: "char \<Rightarrow> string list \<Rightarrow> string" where
  "join c [] = []"
| "join c [p] = p"
| "join c (p # q # ps) = p @ c # join c (q # ps)"

text \<open>
  A JavaScript \<^verbatim>\<open>Map\<close> keeps its entries in insertion order. \<^verbatim>\<open>set\<close> on a key that is
  already present replaces the value and keeps the entry's position; \<^verbatim>\<open>new Map(pairs)\<close>
  sets the pairs from left to right.
\<close>

fun map_set :: "'k \<Rightarrow> 'v \<Rightarrow> ('k \<times> 'v) list \<Rightarrow> ('k \<times> 'v) list" where
  "map_set k v [] = [(k, v)]"
| "map_set k v ((a, b) # ps) = (if a = k then (k, v) # ps else (a, b) # map_set k v ps)"

definition new_Map :: "('k \<times> 'v) list \<Rightarrow> ('k \<times> 'v) list" where
  "new_Map pairs = foldl (\<lambda>m (k, v). map_set k v m) [] pairs"

definition map_values :: "('k \<times> 'v) list \<Rightarrow> 'v list" where
  "map_values m = map snd m"

definition map_size :: "('k \<times> 'v) list \<Rightarrow> nat" where
  "map_size m = length m"

text \<open>\<^verbatim>\<open>xs.filter(x => x !== undefined).map(x => x!)\<close>\<close>

fun definedValues :: "'a option list \<Rightarrow> 'a list" where
  "definedValues [] = []"
| "definedValues (None # xs) = definedValues xs"
| "definedValues (Some x # xs) = x # definedValues xs"

section \<open>The capabilities document\<close>

text \<open>
  The document is an external data source with a query interface: \<^verbatim>\<open>findLayer\<close>,
  \<^verbatim>\<open>getInheritedValues(layer, 'Style')\<close> and the \<^verbatim>\<open>Service\<close> element. The fields are
  the ones the catalog item reads.
\<close>

record onlineResource =
  xlink_href :: "string option"

record capabilitiesLegendUrl =
  OnlineResource :: "onlineResource option"
  Format :: "string option"

datatype 'a oneOrMany = One 'a | Many "'a list"

record capabilitiesStyle =
  style_Name :: string
  style_Title :: string
  style_Abstract :: "string option"
  style_LegendURL :: "capabilitiesLegendUrl oneOrMany option"

record capabilitiesLayer =
  layer_Name :: "string option"
  layer_Title :: string
  layer_Abstract :: "string option"

record capabilitiesService =
  service_Abstract :: "string option"
  service_AccessConstraints :: "string option"

record webMapServiceCapabilities =
  findLayer :: "string \<Rightarrow> capabilitiesLayer option"
  getInheritedStyles :: "capabilitiesLayer \<Rightarrow> capabilitiesStyle list"
  Service :: "capabilitiesService option"

section \<open>WebMapServiceCatalogItem: the selected layers\<close>

datatype layersTrait = LayersUndefined | LayersString string | LayersArray "string list"

fun layersArray :: "layersTrait \<Rightarrow> string list" where
  "layersArray (LayersArray xs) = xs"
| "layersArray (LayersString s) = (if s \<noteq> [] then split CHR '','' s else [])"
| "layersArray LayersUndefined = []"

section \<open>GetCapabilitiesStratum: derived values\<close>

definition capabilitiesLayers ::
  "webMapServiceCapabilities option \<Rightarrow> layersTrait \<Rightarrow> (string \<times> capabilitiesLayer option) list" where
  "capabilitiesLayers caps layers =
     new_Map (map (\<lambda>name. (name, case caps of None \<Rightarrow> None | Some c \<Rightarrow> findLayer c name))
                  (layersArray layers))"

definition rectangle ::
  "(capabilitiesLayer \<Rightarrow> 'r option) \<Rightarrow> webMapServiceCapabilities option \<Rightarrow> layersTrait \<Rightarrow> 'r option" where
  "rectangle getRectangleFromLayer caps layers =
     (case definedValues (map_values (capabilitiesLayers caps layers)) of
        [] \<Rightarrow> None
      | l # _ \<Rightarrow> getRectangleFromLayer l)"

record legendUrl =
  legend_url :: string
  legend_mimeType :: "string option"

record webMapServiceStyle =
  wms_name :: string
  wms_title :: string
  wms_abstract :: "string option"
  wms_legendUrl :: "legendUrl option"

datatype error =
  TerriaError (error_title: string) (error_message: string)
| URIError
| TypeError
| LoadRejected string

text \<open>\<^verbatim>\<open>isReadOnlyArray(style.LegendURL) ? style.LegendURL[0] : style.LegendURL\<close>\<close>

definition wmsLegendUrl :: "capabilitiesStyle \<Rightarrow> capabilitiesLegendUrl option" where
  "wmsLegendUrl style =
     (case style_LegendURL style of
        None \<Rightarrow> None
      | Some (One l) \<Rightarrow> Some l
      | Some (Many ls) \<Rightarrow> (case ls of [] \<Rightarrow> None | l # _ \<Rightarrow> Some l))"

text \<open>
  The callback of \<^verbatim>\<open>styles.map\<close> in \<^verbatim>\<open>availableStyles\<close>. The two library functions are
  parameters: \<open>decodeURIComponent\<close> (\<open>None\<close> when it throws URIError on a malformed
  escape) and \<open>uriToString\<close> for \<^verbatim>\<open>new URI(s).toString()\<close>. An empty href is falsy.
\<close>

definition toStyle ::
  "(string \<Rightarrow> string option) \<Rightarrow> (string \<Rightarrow> string) \<Rightarrow> capabilitiesStyle \<Rightarrow> error + webMapServiceStyle" where
  "toStyle decodeURIComponent uriToString style =
     (let href =
            (case wmsLegendUrl style of
               None \<Rightarrow> None
             | Some l \<Rightarrow>
                 (case OnlineResource l of
                    None \<Rightarrow> None
                  | Some r \<Rightarrow>
                      (case xlink_href r of
                         None \<Rightarrow> None
                       | Some h \<Rightarrow> if h = [] then None else Some (h, Format l))))
      in case href of
           None \<Rightarrow>
             Inr \<lparr>wms_name = style_Name style, wms_title = style_Title style,
                  wms_abstract = style_Abstract style, wms_legendUrl = None\<rparr>
         | Some (h, legendMimeType) \<Rightarrow>
             (case decodeURIComponent h of
                None \<Rightarrow> Inl URIError
              | Some d \<Rightarrow>
                  Inr \<lparr>wms_name = style_Name style, wms_title = style_Title style,
                       wms_abstract = style_Abstract style,
                       wms_legendUrl =
                         Some \<lparr>legend_url = uriToString d, legend_mimeType = legendMimeType\<rparr>\<rparr>))"

text \<open>\<^verbatim>\<open>xs.map(f)\<close> with a callback that may throw: the first exception ends the map.\<close>

fun mapThrowing :: "('a \<Rightarrow> error + 'b) \<Rightarrow> 'a list \<Rightarrow> error + 'b list" where
  "mapThrowing f [] = Inr []"
| "mapThrowing f (x # xs) =
     (case f x of
        Inl e \<Rightarrow> Inl e
      | Inr y \<Rightarrow> (case mapThrowing f xs of Inl e \<Rightarrow> Inl e | Inr ys \<Rightarrow> Inr (y # ys)))"

text \<open>The \<^verbatim>\<open>for (const layerTuple of capabilitiesLayers)\<close> loop of \<^verbatim>\<open>availableStyles\<close>.\<close>

fun availableStylesLoop ::
  "(string \<Rightarrow> string option) \<Rightarrow> (string \<Rightarrow> string) \<Rightarrow> webMapServiceCapabilities \<Rightarrow>
   (string \<times> capabilitiesLayer option) list \<Rightarrow> (string \<rightharpoonup> webMapServiceStyle list) \<Rightarrow>
   error + (string \<rightharpoonup> webMapServiceStyle list)" where
  "availableStylesLoop dec ser c [] result = Inr result"
| "availableStylesLoop dec ser c ((layerName, layer) # rest) result =
     (case mapThrowing (toStyle dec ser)
             (case layer of None \<Rightarrow> [] | Some l \<Rightarrow> getInheritedStyles c l) of
        Inl e \<Rightarrow> Inl e
      | Inr styles \<Rightarrow> availableStylesLoop dec ser c rest (result(layerName \<mapsto> styles)))"

definition availableStyles ::
  "(string \<Rightarrow> string option) \<Rightarrow> (string \<Rightarrow> string) \<Rightarrow> webMapServiceCapabilities option \<Rightarrow>
   layersTrait \<Rightarrow> error + (string \<rightharpoonup> webMapServiceStyle list)" where
  "availableStyles dec ser caps layers =
     (case caps of
        None \<Rightarrow> Inr Map.empty
      | Some c \<Rightarrow> availableStylesLoop dec ser c (capabilitiesLayers caps layers) Map.empty)"

section \<open>WebMapServiceCatalogItem: legend URLs\<close>

text \<open>
  \<^verbatim>\<open>availableStyles\<close> is a plain object. Reading a key that was not set gives undefined,
  except for the names that every object inherits from \<^verbatim>\<open>Object.prototype\<close>: there the
  value read is not undefined and has no \<^verbatim>\<open>map\<close>, and \<^verbatim>\<open>styles.map\<close> throws a TypeError.
\<close>

definition objectPrototypeNames :: "string list" where
  "objectPrototypeNames =
     [''constructor'', ''__defineGetter__'', ''__defineSetter__'', ''hasOwnProperty'',
      ''__lookupGetter__'', ''__lookupSetter__'', ''isPrototypeOf'', ''propertyIsEnumerable'',
      ''toString'', ''valueOf'', ''__proto__'', ''toLocaleString'']"

definition getLegendUrlsForLayer ::
  "string \<Rightarrow> (string \<rightharpoonup> webMapServiceStyle list) \<Rightarrow> error + legendUrl list" where
  "getLegendUrlsForLayer layer styles =
     (case styles layer of
        None \<Rightarrow> if layer \<in> set objectPrototypeNames then Inl TypeError else Inr []
      | Some ss \<Rightarrow> Inr (definedValues (map wms_legendUrl ss)))"

definition legendUrls ::
  "(string \<Rightarrow> string option) \<Rightarrow> (string \<Rightarrow> string) \<Rightarrow> webMapServiceCapabilities option \<Rightarrow>
   layersTrait \<Rightarrow> error + legendUrl list" where
  "legendUrls dec ser caps layers =
     (case availableStyles dec ser caps layers of
        Inl e \<Rightarrow> Inl e
      | Inr styles \<Rightarrow>
          (case mapThrowing (\<lambda>layer. getLegendUrlsForLayer layer styles) (layersArray layers) of
             Inl e \<Rightarrow> Inl e
           | Inr a \<Rightarrow> Inr (concat a)))"

section \<open>GetCapabilitiesStratum: the info sections\<close>

record infoSectionTraits =
  info_name :: string
  info_content :: string

definition abstractsToIgnore :: "string list" where
  "abstractsToIgnore = [''A compliant implementation of WMS'']"

text \<open>
  Modelled from the spec: \<^verbatim>\<open>containsAny\<close> is imported from \<^verbatim>\<open>../Core/containsAny\<close>, which is
  not among the sources. The documentation of \<^verbatim>\<open>abstractsToIgnore\<close> says that an Abstract
  is not used if one of these strings occurs anywhere in it.
\<close>

definition containsAny :: "string \<Rightarrow> string list \<Rightarrow> bool" where
  "containsAny s possibleStrings = list_ex (\<lambda>p. sublist p s) possibleStrings"

text \<open>\<^verbatim>\<open>/^none$/i.test(s)\<close>\<close>

definition isNone :: "string \<Rightarrow> bool" where
  "isNone s =
     (case s of
        [a, b, c, d] \<Rightarrow>
          (a = CHR ''n'' \<or> a = CHR ''N'') \<and> (b = CHR ''o'' \<or> b = CHR ''O'') \<and>
          (c = CHR ''n'' \<or> c = CHR ''N'') \<and> (d = CHR ''e'' \<or> d = CHR ''E'')
      | _ \<Rightarrow> False)"

text \<open>
  One round of the loop over \<^verbatim>\<open>capabilitiesLayers.values()\<close>; the loop state is the result
  list and \<^verbatim>\<open>firstDataDescription\<close>.
\<close>

definition infoLayer ::
  "nat \<Rightarrow> infoSectionTraits list \<times> string option \<Rightarrow> capabilitiesLayer option \<Rightarrow>
   infoSectionTraits list \<times> string option" where
  "infoLayer mapSize st layer =
     (case layer of
        None \<Rightarrow> st
      | Some l \<Rightarrow>
          (case layer_Abstract l of
             None \<Rightarrow> st
           | Some a \<Rightarrow>
               if a = [] \<or> containsAny a abstractsToIgnore then st
               else
                 (let suffix = (if mapSize = 1 then [] else '' - '' @ layer_Title l);
                      name = ''Data Description'' @ suffix
                  in (fst st @ [\<lparr>info_name = name, info_content = a\<rparr>],
                      (case snd st of
                         None \<Rightarrow> Some a
                       | Some f \<Rightarrow> if f = [] then Some a else Some f)))))"

definition infoService ::
  "string option \<Rightarrow> capabilitiesService \<Rightarrow> infoSectionTraits list" where
  "infoService firstDataDescription service =
     (case service_Abstract service of
        None \<Rightarrow> []
      | Some a \<Rightarrow>
          if a \<noteq> [] \<and> \<not> containsAny a abstractsToIgnore \<and> Some a \<noteq> firstDataDescription
          then [\<lparr>info_name = ''Service Description'', info_content = a\<rparr>] else [])
     @
     (case service_AccessConstraints service of
        None \<Rightarrow> []
      | Some ac \<Rightarrow>
          if ac \<noteq> [] \<and> \<not> isNone ac
          then [\<lparr>info_name = ''Access Constraints'', info_content = ac\<rparr>] else [])"

definition info :: "webMapServiceCapabilities option \<Rightarrow> layersTrait \<Rightarrow> infoSectionTraits list" where
  "info caps layers =
     (let m = capabilitiesLayers caps layers;
          st = foldl (infoLayer (map_size m)) ([], None) (map_values m)
      in case caps of
           None \<Rightarrow> fst st
         | Some c \<Rightarrow>
             (case Service c of
                None \<Rightarrow> fst st
              | Some service \<Rightarrow> fst st @ infoService (snd st) service))"

section \<open>GetCapabilitiesStratum: loading\<close>

record stratum =
  capabilities :: "webMapServiceCapabilities option"
  isLoading :: bool

definition newStratum :: stratum where
  "newStratum = \<lparr>capabilities = None, isLoading = False\<rparr>"

datatype assignment =
  Assign_isLoading bool
| Assign_capabilities "webMapServiceCapabilities option"

fun assign :: "stratum \<Rightarrow> assignment \<Rightarrow> stratum" where
  "assign s (Assign_isLoading b) = s\<lparr>isLoading := b\<rparr>"
| "assign s (Assign_capabilities c) = s\<lparr>capabilities := c\<rparr>"

text \<open>
  The observable fields of the stratum together with the states its observers have been
  shown. \<^verbatim>\<open>runInAction\<close> is MobX's: the assignments of the body are made in order, and the
  observers run once, when the action ends, on the state the action leaves.
\<close>

record observedStratum =
  obs_state :: stratum
  obs_notified :: "stratum list"

definition runInAction :: "assignment list \<Rightarrow> observedStratum \<Rightarrow> observedStratum" where
  "runInAction body obs =
     (let s = foldl assign (obs_state obs) body
      in \<lparr>obs_state = s, obs_notified = obs_notified obs @ [s]\<rparr>)"

text \<open>
  \<^verbatim>\<open>loadCapabilities\<close> up to the point where it returns its promise: either the rejected
  promise of the missing url, or the request that \<^verbatim>\<open>WebMapServiceCapabilities.fromUrl\<close> is
  given. \<open>proxyCatalogItemUrl\<close> is the url proxy of the deployment, applied to the
  item's \<^verbatim>\<open>getCapabilitiesUrl\<close>.
\<close>

definition loadCapabilities_request ::
  "(string \<Rightarrow> string) \<Rightarrow> string option \<Rightarrow> observedStratum \<Rightarrow> (error + string) \<times> observedStratum" where
  "loadCapabilities_request proxyCatalogItemUrl getCapabilitiesUrl obs =
     (let obs' = runInAction [Assign_isLoading True, Assign_capabilities None] obs
      in case getCapabilitiesUrl of
           None \<Rightarrow>
             (Inl (TerriaError ''Unable to load GetCapabilities''
                     ''Could not load the Web Map Service (WMS) GetCapabilities document because the catalog item does not have a `url`.''),
              obs')
         | Some u \<Rightarrow> (Inr (proxyCatalogItemUrl u), obs'))"

text \<open>
  The \<^verbatim>\<open>.then(capabilities => ...)\<close> of the request, run when the request settles. There is
  a handler for the fulfilled request only; a rejection passes through to the caller.
\<close>

definition loadCapabilities_then ::
  "error + webMapServiceCapabilities \<Rightarrow> observedStratum \<Rightarrow> (error + unit) \<times> observedStratum" where
  "loadCapabilities_then settled obs =
     (case settled of
        Inl e \<Rightarrow> (Inl e, obs)
      | Inr c \<Rightarrow> (Inr (), runInAction [Assign_capabilities (Some c), Assign_isLoading False] obs))"

text \<open>One whole load, with \<open>fromUrl\<close> giving what the request settles to.\<close>

definition loadCapabilities ::
  "(string \<Rightarrow> string) \<Rightarrow> (string \<Rightarrow> error + webMapServiceCapabilities) \<Rightarrow> string option \<Rightarrow>
   observedStratum \<Rightarrow> (error + unit) \<times> observedStratum" where
  "loadCapabilities proxyCatalogItemUrl fromUrl getCapabilitiesUrl obs =
     (case loadCapabilities_request proxyCatalogItemUrl getCapabilitiesUrl obs of
        (Inl e, obs') \<Rightarrow> (Inl e, obs')
      | (Inr proxiedUrl, obs') \<Rightarrow> loadCapabilities_then (fromUrl proxiedUrl) obs')"

definition loadMetadata ::
  "(string \<Rightarrow> string) \<Rightarrow> (string \<Rightarrow> error + webMapServiceCapabilities) \<Rightarrow> string option \<Rightarrow>
   observedStratum \<Rightarrow> (error + unit) \<times> observedStratum" where
  "loadMetadata = loadCapabilities"

text \<open>
  Loads that overlap: a load is triggered, or a request made earlier settles. The
  stratum does not record which request a settlement belongs to.
\<close>

datatype loadEvent =
  Trigger "string option"
| Settle "error + webMapServiceCapabilities"

fun loadStep :: "(string \<Rightarrow> string) \<Rightarrow> observedStratum \<Rightarrow> loadEvent \<Rightarrow> observedStratum" where
  "loadStep proxy obs (Trigger u) = snd (loadCapabilities_request proxy u obs)"
| "loadStep proxy obs (Settle r) = snd (loadCapabilities_then r obs)"

section \<open>WebMapServiceCatalogItem: map items\<close>

record itemTraits =
  item_url :: "string option"
  item_layers :: layersTrait
  item_opacity :: "rat option"
  item_show :: "bool option"
  item_getCapabilitiesUrl :: "string option"

record wmsParameters =
  param_transparent :: bool
  param_format :: string
  param_exceptions :: string
  param_styles :: string
  param_tiled :: bool

definition defaultParameters :: wmsParameters where
  "defaultParameters =
     \<lparr>param_transparent = True, param_format = ''image/png'',
      param_exceptions = ''application/vnd.ogc.se_xml'', param_styles = [], param_tiled = True\<rparr>"

datatype tilingScheme = WebMercatorTilingScheme

text \<open>
  A \<^verbatim>\<open>WebMapServiceImageryProvider\<close> object: the options it was constructed with, and
  \<open>provider_id\<close>, which stands for the identity of the object (\<^verbatim>\<open>new\<close> gives each
  object an identity of its own).
\<close>

record 'r webMapServiceImageryProvider =
  provider_id :: nat
  provider_url :: string
  provider_layers :: layersTrait
  provider_parameters :: wmsParameters
  provider_tilingScheme :: tilingScheme
  provider_maximumLevel :: nat
  provider_rectangle :: "'r option"

definition newImageryProvider ::
  "nat \<Rightarrow> string option \<Rightarrow> layersTrait \<Rightarrow> 'r option \<Rightarrow> 'r webMapServiceImageryProvider" where
  "newImageryProvider fresh url layers rect =
     \<lparr>provider_id = fresh,
      provider_url = (case url of None \<Rightarrow> [] | Some u \<Rightarrow> u),
      provider_layers = (case layers of LayersUndefined \<Rightarrow> LayersString [] | l \<Rightarrow> l),
      provider_parameters = defaultParameters,
      provider_tilingScheme = WebMercatorTilingScheme,
      provider_maximumLevel = 20,
      provider_rectangle = rect\<rparr>"

text \<open>The function that \<^verbatim>\<open>_createImageryProvider\<close> hands to \<^verbatim>\<open>createTransformer\<close>.\<close>

definition createImageryProviderBody ::
  "(capabilitiesLayer \<Rightarrow> 'r option) \<Rightarrow> itemTraits \<Rightarrow> stratum \<Rightarrow> string \<Rightarrow> nat \<Rightarrow>
   'r webMapServiceImageryProvider option" where
  "createImageryProviderBody getRectangleFromLayer traits st time fresh =
     (if isLoading st then None
      else Some (newImageryProvider fresh (item_url traits) (item_layers traits)
                   (rectangle getRectangleFromLayer (capabilities st) (item_layers traits))))"

text \<open>
  Modelled from the spec: \<^verbatim>\<open>createTransformer\<close> is the library's (mobx-utils) and is not
  among the sources. The spec has the builder memoized keyed by its time argument, an
  entry being rebuilt when an input the builder depends on (url, layer selection,
  payload) has changed. An entry keeps the inputs the body read when it ran: only
  \<^verbatim>\<open>isLoading\<close> when that was true, else also the url, the layers and the payload (which
  \<^verbatim>\<open>stratum.rectangle\<close> is computed from). The entries stay in the cache, as they do while
  the map items are observed.
\<close>

datatype dependencies =
  ReadLoading
| ReadAll "string option" layersTrait "webMapServiceCapabilities option"

definition dependenciesRead :: "itemTraits \<Rightarrow> stratum \<Rightarrow> dependencies" where
  "dependenciesRead traits st =
     (if isLoading st then ReadLoading
      else ReadAll (item_url traits) (item_layers traits) (capabilities st))"

record 'r cacheEntry =
  entry_dependencies :: dependencies
  entry_value :: "'r webMapServiceImageryProvider option"

record 'r transformerCache =
  entries :: "string \<rightharpoonup> 'r cacheEntry"
  nextId :: nat

definition emptyCache :: "'r transformerCache" where
  "emptyCache = \<lparr>entries = Map.empty, nextId = 0\<rparr>"

definition createImageryProvider ::
  "(capabilitiesLayer \<Rightarrow> 'r option) \<Rightarrow> itemTraits \<Rightarrow> stratum \<Rightarrow> string \<Rightarrow> 'r transformerCache \<Rightarrow>
   'r webMapServiceImageryProvider option \<times> 'r transformerCache" where
  "createImageryProvider getRectangleFromLayer traits st time cache =
     (let deps = dependenciesRead traits st;
          rebuilt =
            (let v = createImageryProviderBody getRectangleFromLayer traits st time (nextId cache)
             in (v, \<lparr>entries = (entries cache)(time \<mapsto> \<lparr>entry_dependencies = deps, entry_value = v\<rparr>),
                     nextId = Suc (nextId cache)\<rparr>))
      in case entries cache time of
           None \<Rightarrow> rebuilt
         | Some e \<Rightarrow> if entry_dependencies e = deps then (entry_value e, cache) else rebuilt)"

text \<open>
  The entries of a cache are those the builder made: nothing is cached for a read of
  \<^verbatim>\<open>isLoading = true\<close>, and a cached provider was built from the url and the layers kept
  with it, under an identity already given out.
\<close>

definition cacheInvariant :: "'r transformerCache \<Rightarrow> bool" where
  "cacheInvariant cache =
     (\<forall>time e. entries cache time = Some e \<longrightarrow>
        (case entry_dependencies e of
           ReadLoading \<Rightarrow> entry_value e = None
         | ReadAll u l c \<Rightarrow>
             (\<exists>i < nextId cache. \<exists>r. entry_value e = Some (newImageryProvider i u l r))))"

record 'r imageryParts =
  parts_imageryProvider :: "'r webMapServiceImageryProvider"
  parts_alpha :: "rat option"
  parts_show :: bool

definition currentDiscreteTime :: "string option" where
  "currentDiscreteTime = None"

definition nextDiscreteTime :: "string option" where
  "nextDiscreteTime = None"

definition currentImageryParts ::
  "(capabilitiesLayer \<Rightarrow> 'r option) \<Rightarrow> itemTraits \<Rightarrow> stratum \<Rightarrow> 'r transformerCache \<Rightarrow>
   'r imageryParts option \<times> 'r transformerCache" where
  "currentImageryParts getRectangleFromLayer traits st cache =
     (let time = (case currentDiscreteTime of None \<Rightarrow> ''now'' | Some t \<Rightarrow> if t = [] then ''now'' else t)
      in case createImageryProvider getRectangleFromLayer traits st time cache of
           (None, cache') \<Rightarrow> (None, cache')
         | (Some imageryProvider, cache') \<Rightarrow>
             (Some \<lparr>parts_imageryProvider = imageryProvider,
                    parts_alpha = item_opacity traits,
                    parts_show = (case item_show traits of None \<Rightarrow> True | Some b \<Rightarrow> b)\<rparr>,
              cache'))"

definition nextImageryParts ::
  "(capabilitiesLayer \<Rightarrow> 'r option) \<Rightarrow> itemTraits \<Rightarrow> stratum \<Rightarrow> 'r transformerCache \<Rightarrow>
   'r imageryParts option \<times> 'r transformerCache" where
  "nextImageryParts getRectangleFromLayer traits st cache =
     (case nextDiscreteTime of
        None \<Rightarrow> (None, cache)
      | Some t \<Rightarrow>
          if t = [] then (None, cache)
          else
            (case createImageryProvider getRectangleFromLayer traits st t cache of
               (None, cache') \<Rightarrow> (None, cache')
             | (Some imageryProvider, cache') \<Rightarrow>
                 (Some \<lparr>parts_imageryProvider = imageryProvider, parts_alpha = Some 0,
                        parts_show = True\<rparr>,
                  cache')))"

definition mapItems ::
  "(capabilitiesLayer \<Rightarrow> 'r option) \<Rightarrow> itemTraits \<Rightarrow> stratum \<Rightarrow> 'r transformerCache \<Rightarrow>
   'r imageryParts list \<times> 'r transformerCache" where
  "mapItems getRectangleFromLayer traits st cache =
     (case currentImageryParts getRectangleFromLayer traits st cache of
        (current, cache1) \<Rightarrow>
          (case nextImageryParts getRectangleFromLayer traits st cache1 of
             (next, cache2) \<Rightarrow> (definedValues [current, next], cache2)))"

section \<open>mixGroupTraits\<close>

text \<open>
  A traits class is the list of its decorated property declarations, those of the base
  class first. A declaration is the property key and the options given to its decorator.
\<close>

datatype traitType = PrimitiveTrait string | ModelReferenceArrayTrait string

record traitDefinition =
  trait_property :: string
  trait_name :: string
  trait_description :: string
  trait_type :: traitType

type_synonym modelTraits = "traitDefinition list"

definition isOpenTrait :: traitDefinition where
  "isOpenTrait =
     \<lparr>trait_property = ''isOpen'', trait_name = ''Is Open'',
      trait_description = ''True if this group is open and its contents are visible; otherwise, false.'',
      trait_type = PrimitiveTrait ''boolean''\<rparr>"

definition membersTrait :: traitDefinition where
  "membersTrait =
     \<lparr>trait_property = ''members'', trait_name = ''Members'',
      trait_description = ''The members of this group.'',
      trait_type = ModelReferenceArrayTrait ''CatalogMemberFactory''\<rparr>"

definition mixGroupTraits :: "modelTraits \<Rightarrow> modelTraits" where
  "mixGroupTraits Base = Base @ [isOpenTrait, membersTrait]"

definition propertyNames :: "modelTraits \<Rightarrow> string list" where
  "propertyNames traits = map trait_property traits"

definition recognizedProperties :: "modelTraits \<Rightarrow> string set" where
  "recognizedProperties traits = set (propertyNames traits)"

section \<open>Auxiliary notions for the proofs\<close>

text \<open>The keys of a \<^verbatim>\<open>Map\<close> after one more \<^verbatim>\<open>set\<close>: a new key goes to the end.\<close>

definition insertKey :: "'k list \<Rightarrow> 'k \<Rightarrow> 'k list" where
  "insertKey ks k = (if k \<in> set ks then ks else ks @ [k])"

text \<open>The states that one event of a load shows to the observers.\<close>

fun shown :: "loadEvent \<Rightarrow> stratum list" where
  "shown (Trigger u) = [\<lparr>capabilities = None, isLoading = True\<rparr>]"
| "shown (Settle (Inl e)) = []"
| "shown (Settle (Inr c)) = [\<lparr>capabilities = Some c, isLoading = False\<rparr>]"

text \<open>
  What a style of the document says about its legend: the LegendURL elements it has, and
  the href of one of them, if it has one that is not empty.
\<close>

definition legendElements :: "capabilitiesStyle \<Rightarrow> capabilitiesLegendUrl list" where
  "legendElements style =
     (case style_LegendURL style of None \<Rightarrow> [] | Some (One l) \<Rightarrow> [l] | Some (Many ls) \<Rightarrow> ls)"

definition legendHref :: "capabilitiesLegendUrl \<Rightarrow> string option" where
  "legendHref l =
     (case OnlineResource l of
        None \<Rightarrow> None
      | Some r \<Rightarrow> (case xlink_href r of None \<Rightarrow> None | Some h \<Rightarrow> if h = [] then None else Some h))"

text \<open>The names of a list, each at its first occurrence.\<close>

fun firstOccurrences :: "'k list \<Rightarrow> 'k list" where
  "firstOccurrences [] = []"
| "firstOccurrences (n # ns) = n # filter (\<lambda>m. m \<noteq> n) (firstOccurrences ns)"

text \<open>
  The ``Data Description'' section that a layer of the document is due, when \<open>several\<close>
  says whether more than one layer name is selected: none for a layer without an
  Abstract, with an empty one, or with one that holds a string to ignore.
\<close>

definition dataDescription :: "bool \<Rightarrow> capabilitiesLayer \<Rightarrow> infoSectionTraits list" where
  "dataDescription several l =
     (case layer_Abstract l of
        None \<Rightarrow> []
      | Some a \<Rightarrow>
          if a = [] \<or> containsAny a abstractsToIgnore then []
          else [\<lparr>info_name = (if several then ''Data Description - '' @ layer_Title l
                               else ''Data Description''),
                 info_content = a\<rparr>])"

section \<open>Example documents and items\<close>

definition defaultStyleLegend :: capabilitiesLegendUrl where
  "defaultStyleLegend =
     \<lparr>OnlineResource = Some \<lparr>xlink_href = Some ''http://example.com/legend%3Flayer=precipitation''\<rparr>,
      Format = Some ''image/png''\<rparr>"

definition defaultStyle :: capabilitiesStyle where
  "defaultStyle =
     \<lparr>style_Name = ''default'', style_Title = ''Default'', style_Abstract = None,
      style_LegendURL = Some (Many [defaultStyleLegend])\<rparr>"

definition greyStyle :: capabilitiesStyle where
  "greyStyle =
     \<lparr>style_Name = ''grey'', style_Title = ''Grey'', style_Abstract = None,
      style_LegendURL = Some (One \<lparr>OnlineResource = Some \<lparr>xlink_href = Some []\<rparr>,
                                   Format = Some ''image/png''\<rparr>)\<rparr>"

definition precipitationStyles :: "capabilitiesStyle list" where
  "precipitationStyles = [defaultStyle, greyStyle]"

definition precipitationLayer :: capabilitiesLayer where
  "precipitationLayer =
     \<lparr>layer_Name = Some ''precipitation'', layer_Title = ''Precipitation'',
      layer_Abstract = Some ''Daily rainfall''\<rparr>"

definition precipitationCapabilities :: webMapServiceCapabilities where
  "precipitationCapabilities =
     \<lparr>findLayer = (\<lambda>n. if n = ''precipitation'' then Some precipitationLayer else None),
      getInheritedStyles = (\<lambda>l. if layer_Name l = Some ''precipitation'' then precipitationStyles else []),
      Service = Some \<lparr>service_Abstract = Some ''Weather'', service_AccessConstraints = Some ''none''\<rparr>\<rparr>"

definition exampleDecode :: "string \<Rightarrow> string option" where
  "exampleDecode s =
     (if s = ''http://example.com/legend%3Flayer=precipitation''
      then Some ''http://example.com/legend?layer=precipitation''
      else if CHR ''%'' \<in> set s then None else Some s)"

definition exampleRectangle :: "capabilitiesLayer \<Rightarrow> (int \<times> int \<times> int \<times> int) option" where
  "exampleRectangle l =
     (if layer_Name l = Some ''precipitation'' then Some (110, -45, 155, -10) else None)"

definition exampleTraits :: itemTraits where
  "exampleTraits =
     \<lparr>item_url = Some ''http://example.com/wms'', item_layers = LayersString ''precipitation'',
      item_opacity = Some (4 / 5), item_show = None,
      item_getCapabilitiesUrl = Some ''http://example.com/wms?service=WMS&version=1.3.0&request=GetCapabilities''\<rparr>"

definition loadedStratum :: stratum where
  "loadedStratum = \<lparr>capabilities = Some precipitationCapabilities, isLoading = False\<rparr>"

definition reloadedStratum :: stratum where
  "reloadedStratum =
     \<lparr>capabilities = Some (precipitationCapabilities\<lparr>Service := None\<rparr>), isLoading = False\<rparr>"

definition loadingStratum :: stratum where
  "loadingStratum = \<lparr>capabilities = None, isLoading = True\<rparr>"

definition movedTraits :: itemTraits where
  "movedTraits = exampleTraits\<lparr>item_url := Some ''http://example.org/wms''\<rparr>"

definition geoserverLayer :: capabilitiesLayer where
  "geoserverLayer =
     \<lparr>layer_Name = Some ''topp:states'', layer_Title = ''States'',
      layer_Abstract = Some ''A compliant implementation of WMS plus most of the extensions''\<rparr>"

definition roadsLayer :: capabilitiesLayer where
  "roadsLayer =
     \<lparr>layer_Name = Some ''roads'', layer_Title = ''Roads'', layer_Abstract = Some ''Road network''\<rparr>"

definition geoserverCapabilities :: webMapServiceCapabilities where
  "geoserverCapabilities =
     \<lparr>findLayer = (\<lambda>n. if n = ''topp:states'' then Some geoserverLayer
                       else if n = ''roads'' then Some roadsLayer else None),
      getInheritedStyles = (\<lambda>l. []),
      Service = Some \<lparr>service_Abstract = Some ''A compliant implementation of WMS plus most of the extensions'',
                      service_AccessConstraints = Some ''NONE''\<rparr>\<rparr>"

definition exampleBaseTraits :: modelTraits where
  "exampleBaseTraits =
     [\<lparr>trait_property = ''url'', trait_name = ''URL'',
       trait_description = ''The base URL of the file or service.'',
       trait_type = PrimitiveTrait ''string''\<rparr>]"

section \<open>Properties of the helpers\<close>

lemma split_nonempty: "split c s \<noteq> []"
  by (induction s) (auto split: list.splits)

lemma join_split: "join c (split c s) = s"
proof (induction s)
  case Nil
  show ?case by simp
next
  case (Cons x xs)
  show ?case
  proof (cases "x = c")
    case True
    obtain p ps where "split c xs = p # ps"
      using split_nonempty [of c xs] by (cases "split c xs") auto
    with Cons True show ?thesis by simp
  next
    case False
    obtain p ps where sp: "split c xs = p # ps"
      using split_nonempty [of c xs] by (cases "split c xs") auto
    with Cons False show ?thesis by (cases ps) auto
  qed
qed

lemma split_pieces: "p \<in> set (split c s) \<Longrightarrow> c \<notin> set p"
  by (induction s arbitrary: p) (auto split: if_splits list.splits)

lemma map_set_graph:
  "map_set k (f k) (map (\<lambda>n. (n, f n)) ks) = map (\<lambda>n. (n, f n)) (insertKey ks k)"
  by (induction ks) (auto simp: insertKey_def)

lemma foldl_map_set_graph:
  "foldl (\<lambda>m (k, v). map_set k v m) (map (\<lambda>n. (n, f n)) ks) (map (\<lambda>n. (n, f n)) ns)
   = map (\<lambda>n. (n, f n)) (foldl insertKey ks ns)"
proof (induction ns arbitrary: ks)
  case Nil
  show ?case by simp
next
  case (Cons n ns)
  show ?case using Cons [of "insertKey ks n"] by (simp add: map_set_graph)
qed

lemma new_Map_graph:
  "new_Map (map (\<lambda>n. (n, f n)) ns) = map (\<lambda>n. (n, f n)) (foldl insertKey [] ns)"
  using foldl_map_set_graph [of f "[]" ns] by (simp add: new_Map_def)

lemma foldl_insertKey_extends:
  "\<exists>zs. foldl insertKey ks ns = ks @ zs \<and> set zs \<subseteq> set ns"
proof (induction ns arbitrary: ks)
  case Nil
  show ?case by simp
next
  case (Cons n ns)
  obtain zs where zs: "foldl insertKey (insertKey ks n) ns = insertKey ks n @ zs" "set zs \<subseteq> set ns"
    using Cons [of "insertKey ks n"] by blast
  show ?case
  proof (cases "n \<in> set ks")
    case True
    then have "insertKey ks n = ks" by (simp add: insertKey_def)
    with zs have "foldl insertKey ks (n # ns) = ks @ zs" by simp
    moreover have "set zs \<subseteq> set (n # ns)" using zs by auto
    ultimately show ?thesis by blast
  next
    case False
    then have "insertKey ks n = ks @ [n]" by (simp add: insertKey_def)
    with zs have "foldl insertKey ks (n # ns) = ks @ (n # zs)" by simp
    moreover have "set (n # zs) \<subseteq> set (n # ns)" using zs by auto
    ultimately show ?thesis by blast
  qed
qed

lemma definedValues_append: "definedValues (xs @ ys) = definedValues xs @ definedValues ys"
  by (induction xs rule: definedValues.induct) auto

lemma definedValues_undefined: "(\<forall>x \<in> set xs. x = None) \<Longrightarrow> definedValues xs = []"
  by (induction xs rule: definedValues.induct) auto

lemma values_capabilitiesLayers:
  "map_values (capabilitiesLayers caps layers) =
   map (\<lambda>name. case caps of None \<Rightarrow> None | Some c \<Rightarrow> findLayer c name)
     (foldl insertKey [] (layersArray layers))"
  by (simp add: capabilitiesLayers_def map_values_def new_Map_graph comp_def)

lemma foldl_insertKey_first:
  assumes "\<forall>m \<in> set pre. f m = None" and "f n = Some l"
  shows "\<exists>zs. definedValues (map f (foldl insertKey [] (pre @ n # post))) = l # zs"
proof -
  obtain ks where ks: "foldl insertKey [] pre = ks" "set ks \<subseteq> set pre"
    using foldl_insertKey_extends [of "[]" pre] by auto
  have nks: "n \<notin> set ks" using assms ks by auto
  obtain zs where zs: "foldl insertKey (ks @ [n]) post = (ks @ [n]) @ zs"
    using foldl_insertKey_extends [of "ks @ [n]" post] by blast
  have "insertKey ks n = ks @ [n]" using nks by (simp add: insertKey_def)
  then have "foldl insertKey [] (pre @ n # post) = ks @ n # zs"
    using ks zs by simp
  moreover have "definedValues (map f ks) = []"
    using assms ks by (intro definedValues_undefined) auto
  ultimately show ?thesis using assms by (simp add: definedValues_append)
qed

section \<open>The selected layers\<close>

text \<open>
  Claim C10. \<^verbatim>\<open>layersArray\<close> is the \<^verbatim>\<open>layers\<close> value itself when that is an array; for a
  non-empty string it is the list of the pieces between the commas (no piece holds a
  comma, and the pieces joined by commas are the string again); it is the empty array
  when \<^verbatim>\<open>layers\<close> is the empty string or undefined. The function is total, so reading the
  list never fails.
\<close>

theorem layersArray_cases:
  "layersArray (LayersArray xs) = xs
   \<and> (s \<noteq> [] \<longrightarrow>
        layersArray (LayersString s) = split CHR '','' s
        \<and> join CHR '','' (layersArray (LayersString s)) = s
        \<and> (\<forall>p \<in> set (layersArray (LayersString s)). CHR '','' \<notin> set p))
   \<and> layersArray (LayersString []) = []
   \<and> layersArray LayersUndefined = []"
  by (simp add: join_split split_pieces)

theorem layersArray_cases_witness:
  "''a,b'' \<noteq> [] \<and> layersArray (LayersString ''a,b'') = [''a'', ''b'']
   \<and> join CHR '','' (layersArray (LayersString ''a,b'')) = ''a,b''"
  using layersArray_cases [of "[]" "''a,b''"] by simp

section \<open>The rectangle of the stratum\<close>

text \<open>
  Claim C6. With a capabilities document loaded, the rectangle of the stratum is the
  rectangle of the first of the selected layers that the document has (not a union over
  the layers), and it is undefined when the document has none of the selected layers.
\<close>

theorem rectangle_first_defined_layer:
  "(layersArray layers = pre @ n # post \<and> (\<forall>m \<in> set pre. findLayer c m = None)
      \<and> findLayer c n = Some l
    \<longrightarrow> rectangle getRectangleFromLayer (Some c) layers = getRectangleFromLayer l)
   \<and> ((\<forall>m \<in> set (layersArray layers). findLayer c m = None)
    \<longrightarrow> rectangle getRectangleFromLayer (Some c) layers = None)"
proof (intro conjI impI)
  assume a: "layersArray layers = pre @ n # post \<and> (\<forall>m \<in> set pre. findLayer c m = None)
      \<and> findLayer c n = Some l"
  then obtain zs where
    "definedValues (map (findLayer c) (foldl insertKey [] (pre @ n # post))) = l # zs"
    using foldl_insertKey_first [of pre "findLayer c" n l post] by blast
  with a show "rectangle getRectangleFromLayer (Some c) layers = getRectangleFromLayer l"
    by (simp add: rectangle_def values_capabilitiesLayers)
next
  assume a: "\<forall>m \<in> set (layersArray layers). findLayer c m = None"
  obtain zs where "foldl insertKey [] (layersArray layers) = zs" "set zs \<subseteq> set (layersArray layers)"
    using foldl_insertKey_extends [of "[]" "layersArray layers"] by auto
  with a have "definedValues (map (findLayer c) (foldl insertKey [] (layersArray layers))) = []"
    by (intro definedValues_undefined) auto
  then show "rectangle getRectangleFromLayer (Some c) layers = None"
    by (simp add: rectangle_def values_capabilitiesLayers)
qed

theorem rectangle_first_defined_layer_witness:
  "layersArray (LayersString ''a,b'') = [''a''] @ ''b'' # []
   \<and> rectangle (\<lambda>l. Some (layer_Title l))
        (Some \<lparr>findLayer = (\<lambda>n. if n = ''b'' then Some \<lparr>layer_Name = Some ''b'', layer_Title = ''B'', layer_Abstract = None\<rparr> else None),
               getInheritedStyles = (\<lambda>l. []), Service = None\<rparr>)
        (LayersString ''a,b'') = Some ''B''
   \<and> rectangle (\<lambda>l. Some (layer_Title l))
        (Some \<lparr>findLayer = (\<lambda>n. if n = ''b'' then Some \<lparr>layer_Name = Some ''b'', layer_Title = ''B'', layer_Abstract = None\<rparr> else None),
               getInheritedStyles = (\<lambda>l. []), Service = None\<rparr>)
        (LayersString ''a,c'') = None"
  using
    rectangle_first_defined_layer
      [where layers = "LayersString ''a,b''" and pre = "[''a'']" and n = "''b''" and post = "[]"
         and l = "\<lparr>layer_Name = Some ''b'', layer_Title = ''B'', layer_Abstract = None\<rparr>"
         and getRectangleFromLayer = "\<lambda>l. Some (layer_Title l)"
         and c = "\<lparr>findLayer = (\<lambda>n. if n = ''b'' then Some \<lparr>layer_Name = Some ''b'', layer_Title = ''B'', layer_Abstract = None\<rparr> else None),
               getInheritedStyles = (\<lambda>l. []), Service = None\<rparr>"]
    rectangle_first_defined_layer
      [where layers = "LayersString ''a,c''"
         and getRectangleFromLayer = "\<lambda>l. Some (layer_Title l)"
         and c = "\<lparr>findLayer = (\<lambda>n. if n = ''b'' then Some \<lparr>layer_Name = Some ''b'', layer_Title = ''B'', layer_Abstract = None\<rparr> else None),
               getInheritedStyles = (\<lambda>l. []), Service = None\<rparr>"]
  by simp

section \<open>Legend URLs\<close>

lemma wmsLegendUrl_element:
  "wmsLegendUrl style = Some l \<Longrightarrow> l \<in> set (legendElements style)"
  by (auto simp: wmsLegendUrl_def legendElements_def
      split: option.splits oneOrMany.splits list.splits)

lemma toStyle_without_legend:
  assumes "\<forall>e \<in> set (legendElements style). legendHref e = None"
  shows "toStyle decodeURIComponent uriToString style =
      Inr \<lparr>wms_name = style_Name style, wms_title = style_Title style,
           wms_abstract = style_Abstract style, wms_legendUrl = None\<rparr>"
proof (cases "wmsLegendUrl style")
  case None
  then show ?thesis by (simp add: toStyle_def)
next
  case (Some l)
  then have "legendHref l = None"
    using assms wmsLegendUrl_element by blast
  then have "(case OnlineResource l of
                None \<Rightarrow> None
              | Some r \<Rightarrow>
                  (case xlink_href r of
                     None \<Rightarrow> None
                   | Some h \<Rightarrow> if h = [] then None else Some (h, Format l))) = None"
    by (auto simp: legendHref_def split: option.splits if_splits)
  then show ?thesis
    using Some by (simp add: toStyle_def)
qed

lemma toStyle_with_legend:
  assumes "style_LegendURL style = Some (One lu) \<or> style_LegendURL style = Some (Many (lu # rest))"
    and "OnlineResource lu = Some r" and "xlink_href r = Some h" and "h \<noteq> []"
    and "decodeURIComponent h = Some d"
  shows "toStyle decodeURIComponent uriToString style =
      Inr \<lparr>wms_name = style_Name style, wms_title = style_Title style,
           wms_abstract = style_Abstract style,
           wms_legendUrl = Some \<lparr>legend_url = uriToString d, legend_mimeType = Format lu\<rparr>\<rparr>"
proof -
  have "wmsLegendUrl style = Some lu"
    using assms(1) by (auto simp: wmsLegendUrl_def)
  then show ?thesis
    using assms(2-5) by (simp add: toStyle_def)
qed

text \<open>
  Claim C7. The item's layers are \<^verbatim>\<open>"precipitation"\<close>, the loaded document has a layer of
  that name with two styles, and exactly one of the two carries a legend URL: its
  LegendURL is one element, or an array whose first element it is, with a non-empty href
  that decodes, while no LegendURL element of the other style has an href. Then
  \<^verbatim>\<open>legendUrls\<close> is that one legend URL, its url being the href decoded by
  \<^verbatim>\<open>decodeURIComponent\<close> and then serialised again, with the format of the legend as its
  mime type.
\<close>

theorem legendUrls_precipitation:
  assumes "findLayer c ''precipitation'' = Some l"
    and "getInheritedStyles c l = [sx, sy]"
    and "(sx = sa \<and> sy = sb) \<or> (sx = sb \<and> sy = sa)"
    and "style_LegendURL sa = Some (One lu) \<or> style_LegendURL sa = Some (Many (lu # rest))"
    and "OnlineResource lu = Some r" and "xlink_href r = Some h" and "h \<noteq> []"
    and "decodeURIComponent h = Some d"
    and "\<forall>e \<in> set (legendElements sb). legendHref e = None"
  shows "legendUrls decodeURIComponent uriToString (Some c) (LayersString ''precipitation'')
         = Inr [\<lparr>legend_url = uriToString d, legend_mimeType = Format lu\<rparr>]"
proof -
  have cl: "capabilitiesLayers (Some c) (LayersString ''precipitation'') = [(''precipitation'', Some l)]"
    using assms(1) by (simp add: capabilitiesLayers_def new_Map_def)
  have sa: "toStyle decodeURIComponent uriToString sa =
      Inr \<lparr>wms_name = style_Name sa, wms_title = style_Title sa, wms_abstract = style_Abstract sa,
           wms_legendUrl = Some \<lparr>legend_url = uriToString d, legend_mimeType = Format lu\<rparr>\<rparr>"
    using assms(4-8) by (rule toStyle_with_legend)
  have sb: "toStyle decodeURIComponent uriToString sb =
      Inr \<lparr>wms_name = style_Name sb, wms_title = style_Title sb, wms_abstract = style_Abstract sb,
           wms_legendUrl = None\<rparr>"
    using assms(9) by (rule toStyle_without_legend)
  from assms(3) show ?thesis
  proof
    assume "sx = sa \<and> sy = sb"
    then show ?thesis
      using assms(2) cl sa sb
      by (simp add: legendUrls_def availableStyles_def getLegendUrlsForLayer_def)
  next
    assume "sx = sb \<and> sy = sa"
    then show ?thesis
      using assms(2) cl sa sb
      by (simp add: legendUrls_def availableStyles_def getLegendUrlsForLayer_def)
  qed
qed

theorem legendUrls_precipitation_witness:
  "legendUrls exampleDecode (\<lambda>s. s) (Some precipitationCapabilities) (LayersString ''precipitation'')
   = Inr [\<lparr>legend_url = ''http://example.com/legend?layer=precipitation'',
            legend_mimeType = Some ''image/png''\<rparr>]"
proof -
  have 1: "findLayer precipitationCapabilities ''precipitation'' = Some precipitationLayer"
    by (simp add: precipitationCapabilities_def)
  have 2: "getInheritedStyles precipitationCapabilities precipitationLayer = [defaultStyle, greyStyle]"
    by (simp add: precipitationCapabilities_def precipitationLayer_def precipitationStyles_def)
  have 3: "(defaultStyle = defaultStyle \<and> greyStyle = greyStyle)
           \<or> (defaultStyle = greyStyle \<and> greyStyle = defaultStyle)"
    by simp
  have 4: "style_LegendURL defaultStyle = Some (One defaultStyleLegend)
           \<or> style_LegendURL defaultStyle = Some (Many (defaultStyleLegend # []))"
    by (simp add: defaultStyle_def)
  have 5: "OnlineResource defaultStyleLegend
           = Some \<lparr>xlink_href = Some ''http://example.com/legend%3Flayer=precipitation''\<rparr>"
    by (simp add: defaultStyleLegend_def)
  have 6: "xlink_href \<lparr>xlink_href = Some ''http://example.com/legend%3Flayer=precipitation''\<rparr>
           = Some ''http://example.com/legend%3Flayer=precipitation''"
    by simp
  have 7: "''http://example.com/legend%3Flayer=precipitation'' \<noteq> []"
    by simp
  have 8: "exampleDecode ''http://example.com/legend%3Flayer=precipitation''
           = Some ''http://example.com/legend?layer=precipitation''"
    by (simp add: exampleDecode_def)
  have 9: "\<forall>e \<in> set (legendElements greyStyle). legendHref e = None"
    by (simp add: greyStyle_def legendElements_def legendHref_def)
  show ?thesis
    using legendUrls_precipitation
      [where c = precipitationCapabilities and l = precipitationLayer
         and sx = defaultStyle and sy = greyStyle and sa = defaultStyle and sb = greyStyle
         and lu = defaultStyleLegend and rest = "[]"
         and r = "\<lparr>xlink_href = Some ''http://example.com/legend%3Flayer=precipitation''\<rparr>"
         and h = "''http://example.com/legend%3Flayer=precipitation''"
         and d = "''http://example.com/legend?layer=precipitation''"
         and decodeURIComponent = exampleDecode and uriToString = "\<lambda>s. s"]
      1 2 3 4 5 6 7 8 9
    by (simp add: defaultStyleLegend_def)
qed

section \<open>Info sections\<close>

lemma foldl_insertKey_firstOccurrences:
  "foldl insertKey ks ns = ks @ filter (\<lambda>m. m \<notin> set ks) (firstOccurrences ns)"
proof (induction ns arbitrary: ks)
  case Nil
  show ?case by simp
next
  case (Cons n ns)
  show ?case
  proof (cases "n \<in> set ks")
    case True
    then have "insertKey ks n = ks" by (simp add: insertKey_def)
    moreover have "filter (\<lambda>m. m \<notin> set ks) (filter (\<lambda>m. m \<noteq> n) (firstOccurrences ns))
        = filter (\<lambda>m. m \<notin> set ks) (firstOccurrences ns)"
      using True by (auto intro: filter_cong)
    ultimately show ?thesis using Cons [of ks] True by simp
  next
    case False
    then have "insertKey ks n = ks @ [n]" by (simp add: insertKey_def)
    moreover have "filter (\<lambda>m. m \<notin> set (ks @ [n])) (firstOccurrences ns)
        = filter (\<lambda>m. m \<notin> set ks) (filter (\<lambda>m. m \<noteq> n) (firstOccurrences ns))"
      by (auto intro: filter_cong)
    ultimately show ?thesis using Cons [of "ks @ [n]"] False by simp
  qed
qed

lemma set_firstOccurrences: "set (firstOccurrences ns) = set ns"
  by (induction ns) auto

lemma distinct_firstOccurrences: "distinct (firstOccurrences ns)"
  by (induction ns) (auto simp: set_firstOccurrences)

lemma capabilitiesLayers_firstOccurrences:
  "capabilitiesLayers (Some c) layers =
   map (\<lambda>n. (n, findLayer c n)) (firstOccurrences (layersArray layers))"
  using foldl_insertKey_firstOccurrences [of "[]" "layersArray layers"]
  by (simp add: capabilitiesLayers_def new_Map_graph)

lemma map_size_capabilitiesLayers:
  "map_size (capabilitiesLayers (Some c) layers) = card (set (layersArray layers))"
  using distinct_card [OF distinct_firstOccurrences [of "layersArray layers"]]
  by (simp add: capabilitiesLayers_firstOccurrences map_size_def set_firstOccurrences)

lemma fst_infoLayer:
  "fst (infoLayer k st v) =
   fst st @ (case v of None \<Rightarrow> [] | Some l \<Rightarrow> dataDescription (k \<noteq> 1) l)"
  by (simp add: infoLayer_def dataDescription_def Let_def del: One_nat_def split: option.splits)

lemma fst_foldl_infoLayer:
  "fst (foldl (infoLayer k) st vs) =
   fst st @ concat (map (\<lambda>v. case v of None \<Rightarrow> [] | Some l \<Rightarrow> dataDescription (k \<noteq> 1) l) vs)"
  by (induction vs arbitrary: st) (simp_all add: fst_infoLayer del: One_nat_def)

lemma dataDescription_section:
  assumes "e \<in> set (dataDescription several l)"
  shows "layer_Abstract l = Some (info_content e) \<and> info_content e \<noteq> []
         \<and> \<not> containsAny (info_content e) abstractsToIgnore
         \<and> info_name e = (if several then ''Data Description - '' @ layer_Title l
                           else ''Data Description'')"
  using assms by (auto simp: dataDescription_def split: option.splits if_splits)

lemma dataDescription_name:
  "e \<in> set (dataDescription several l) \<Longrightarrow> prefix ''Data Description'' (info_name e)"
  by (auto simp: dataDescription_def split: option.splits if_splits)

lemma infoService_names:
  "e \<in> set (infoService f service) \<Longrightarrow> \<not> prefix ''Data Description'' (info_name e)"
  by (auto simp: infoService_def split: option.splits if_splits)

lemma filter_sections:
  assumes "\<forall>e \<in> set xs. P e" and "\<forall>e \<in> set ys. \<not> P e"
  shows "filter P (xs @ ys) = xs"
  using assms by (simp add: filter_empty_conv)

lemma info_data_descriptions:
  "filter (\<lambda>e. prefix ''Data Description'' (info_name e)) (info (Some c) layers)
   = concat (map (\<lambda>n. case findLayer c n of
                         None \<Rightarrow> []
                       | Some l \<Rightarrow> dataDescription (card (set (layersArray layers)) \<noteq> 1) l)
               (firstOccurrences (layersArray layers)))"
proof -
  let ?P = "\<lambda>e. prefix ''Data Description'' (info_name e)"
  let ?several = "card (set (layersArray layers)) \<noteq> 1"
  let ?xs = "concat (map (\<lambda>n. case findLayer c n of
                         None \<Rightarrow> []
                       | Some l \<Rightarrow> dataDescription ?several l)
               (firstOccurrences (layersArray layers)))"
  let ?m = "capabilitiesLayers (Some c) layers"
  let ?st = "foldl (infoLayer (map_size ?m)) ([], None) (map_values ?m)"
  have xs: "fst ?st = ?xs"
    unfolding fst_foldl_infoLayer map_size_capabilitiesLayers
    by (simp add: capabilitiesLayers_firstOccurrences map_values_def comp_def del: One_nat_def)
  have P: "\<forall>e \<in> set ?xs. ?P e"
    by (auto split: option.splits dest: dataDescription_name)
  show ?thesis
  proof (cases "Service c")
    case None
    then have "info (Some c) layers = ?xs @ []"
      using xs by (simp add: info_def Let_def)
    then show ?thesis using P by (simp only: filter_sections [where ys = "[]"]) simp
  next
    case (Some service)
    then have "info (Some c) layers = ?xs @ infoService (snd ?st) service"
      using xs by (simp add: info_def Let_def)
    moreover have "\<forall>e \<in> set (infoService (snd ?st) service). \<not> ?P e"
      using infoService_names by blast
    ultimately show ?thesis using P filter_sections [of ?xs ?P] by simp
  qed
qed

lemma info_data_description_layer:
  assumes "e \<in> set (info (Some c) layers)" and "prefix ''Data Description'' (info_name e)"
  shows "\<exists>n l. n \<in> set (layersArray layers) \<and> findLayer c n = Some l
           \<and> layer_Abstract l = Some (info_content e) \<and> info_content e \<noteq> []
           \<and> \<not> containsAny (info_content e) abstractsToIgnore
           \<and> info_name e = (if card (set (layersArray layers)) = 1 then ''Data Description''
                             else ''Data Description - '' @ layer_Title l)"
proof -
  have "e \<in> set (filter (\<lambda>e. prefix ''Data Description'' (info_name e)) (info (Some c) layers))"
    using assms by simp
  then obtain n where n: "n \<in> set (firstOccurrences (layersArray layers))"
    and en: "e \<in> set (case findLayer c n of
                         None \<Rightarrow> []
                       | Some l \<Rightarrow> dataDescription (card (set (layersArray layers)) \<noteq> 1) l)"
    unfolding info_data_descriptions by auto
  then obtain l where l: "findLayer c n = Some l"
    and e: "e \<in> set (dataDescription (card (set (layersArray layers)) \<noteq> 1) l)"
    by (cases "findLayer c n") auto
  show ?thesis
    using n l dataDescription_section [OF e]
    by (intro exI [of _ n] exI [of _ l]) (auto simp: set_firstOccurrences)
qed

text \<open>
  Claim C8. A selected layer of the loaded document whose Abstract holds one of the
  strings to ignore gets no ``Data Description'' section. The sections of \<^verbatim>\<open>info\<close> whose
  name starts with ``Data Description'' are exactly those due to the selected layers that
  the document has, in the order of selection: none has the ignored Abstract as its
  content, each is the non-empty, not ignored Abstract of a selected layer under that
  layer's name of the section, and there is no such section at all when every selected
  layer of the document has an Abstract to ignore.
\<close>

theorem info_ignores_abstract:
  "(n \<in> set (layersArray layers) \<and> findLayer c n = Some l \<and> layer_Abstract l = Some a
      \<and> containsAny a abstractsToIgnore \<longrightarrow>
      dataDescription several l = []
      \<and> (\<forall>e \<in> set (info (Some c) layers).
            prefix ''Data Description'' (info_name e) \<longrightarrow> info_content e \<noteq> a))
   \<and> filter (\<lambda>e. prefix ''Data Description'' (info_name e)) (info (Some c) layers)
      = concat (map (\<lambda>n. case findLayer c n of
                            None \<Rightarrow> []
                          | Some l \<Rightarrow> dataDescription (card (set (layersArray layers)) \<noteq> 1) l)
                  (firstOccurrences (layersArray layers)))
   \<and> (\<forall>e \<in> set (info (Some c) layers). prefix ''Data Description'' (info_name e) \<longrightarrow>
        (\<exists>n l. n \<in> set (layersArray layers) \<and> findLayer c n = Some l
           \<and> layer_Abstract l = Some (info_content e) \<and> info_content e \<noteq> []
           \<and> \<not> containsAny (info_content e) abstractsToIgnore
           \<and> info_name e = (if card (set (layersArray layers)) = 1 then ''Data Description''
                             else ''Data Description - '' @ layer_Title l)))
   \<and> ((\<forall>n \<in> set (layersArray layers). \<forall>l a.
          findLayer c n = Some l \<and> layer_Abstract l = Some a \<longrightarrow> containsAny a abstractsToIgnore)
       \<longrightarrow> (\<forall>e \<in> set (info (Some c) layers). \<not> prefix ''Data Description'' (info_name e)))"
proof (intro conjI impI)
  assume "n \<in> set (layersArray layers) \<and> findLayer c n = Some l \<and> layer_Abstract l = Some a
      \<and> containsAny a abstractsToIgnore"
  then show "dataDescription several l = []"
    by (simp add: dataDescription_def)
next
  assume a: "n \<in> set (layersArray layers) \<and> findLayer c n = Some l \<and> layer_Abstract l = Some a
      \<and> containsAny a abstractsToIgnore"
  show "\<forall>e \<in> set (info (Some c) layers).
            prefix ''Data Description'' (info_name e) \<longrightarrow> info_content e \<noteq> a"
    using a info_data_description_layer [of _ c layers] by blast
next
  show "filter (\<lambda>e. prefix ''Data Description'' (info_name e)) (info (Some c) layers)
      = concat (map (\<lambda>n. case findLayer c n of
                            None \<Rightarrow> []
                          | Some l \<Rightarrow> dataDescription (card (set (layersArray layers)) \<noteq> 1) l)
                  (firstOccurrences (layersArray layers)))"
    by (rule info_data_descriptions)
next
  show "\<forall>e \<in> set (info (Some c) layers). prefix ''Data Description'' (info_name e) \<longrightarrow>
        (\<exists>n l. n \<in> set (layersArray layers) \<and> findLayer c n = Some l
           \<and> layer_Abstract l = Some (info_content e) \<and> info_content e \<noteq> []
           \<and> \<not> containsAny (info_content e) abstractsToIgnore
           \<and> info_name e = (if card (set (layersArray layers)) = 1 then ''Data Description''
                             else ''Data Description - '' @ layer_Title l))"
    using info_data_description_layer [of _ c layers] by blast
next
  assume a: "\<forall>n \<in> set (layersArray layers). \<forall>l a.
          findLayer c n = Some l \<and> layer_Abstract l = Some a \<longrightarrow> containsAny a abstractsToIgnore"
  show "\<forall>e \<in> set (info (Some c) layers). \<not> prefix ''Data Description'' (info_name e)"
  proof (intro ballI notI)
    fix e
    assume "e \<in> set (info (Some c) layers)" and "prefix ''Data Description'' (info_name e)"
    then obtain n l where "n \<in> set (layersArray layers)" "findLayer c n = Some l"
      "layer_Abstract l = Some (info_content e)"
      "\<not> containsAny (info_content e) abstractsToIgnore"
      using info_data_description_layer [of e c layers] by blast
    with a show False by blast
  qed
qed

theorem info_ignores_abstract_witness:
  "info (Some geoserverCapabilities) (LayersString ''topp:states,roads'')
     = [\<lparr>info_name = ''Data Description - Roads'', info_content = ''Road network''\<rparr>]
   \<and> info (Some geoserverCapabilities) (LayersString ''topp:states'') = []
   \<and> containsAny ''A compliant implementation of WMS plus most of the extensions'' abstractsToIgnore"
proof -
  have 1: "''topp:states'' \<in> set (layersArray (LayersString ''topp:states,roads''))"
    by simp
  have 2: "findLayer geoserverCapabilities ''topp:states'' = Some geoserverLayer"
    by (simp add: geoserverCapabilities_def)
  have 3: "layer_Abstract geoserverLayer
           = Some ''A compliant implementation of WMS plus most of the extensions''"
    by (simp add: geoserverLayer_def)
  have 4: "containsAny ''A compliant implementation of WMS plus most of the extensions''
             abstractsToIgnore"
    by (simp add: containsAny_def abstractsToIgnore_def sublist_code)
  have 5: "\<not> containsAny ''Road network'' abstractsToIgnore"
    by (simp add: containsAny_def abstractsToIgnore_def sublist_code)
  have 6: "info (Some geoserverCapabilities) (LayersString ''topp:states,roads'')
           = [\<lparr>info_name = ''Data Description - Roads'', info_content = ''Road network''\<rparr>]"
    using 4 5
    by (simp add: info_def capabilitiesLayers_def new_Map_def map_values_def map_size_def
        infoLayer_def infoService_def isNone_def geoserverCapabilities_def geoserverLayer_def
        roadsLayer_def)
  have 7: "info (Some geoserverCapabilities) (LayersString ''topp:states'') = []"
    using 4
    by (simp add: info_def capabilitiesLayers_def new_Map_def map_values_def map_size_def
        infoLayer_def infoService_def isNone_def geoserverCapabilities_def geoserverLayer_def)
  have evaluated: ?thesis
    using 4 6 7 by simp
  show ?thesis
    using info_ignores_abstract
      [where n = "''topp:states''" and layers = "LayersString ''topp:states,roads''"
         and c = geoserverCapabilities and l = geoserverLayer
         and a = "''A compliant implementation of WMS plus most of the extensions''"]
      1 2 3
    by (simp only: evaluated simp_thms)
qed

section \<open>Loading the capabilities\<close>

text \<open>
  Claim C1. An item without a \<^verbatim>\<open>getCapabilitiesUrl\<close> whose stratum holds a loaded document:
  the load is rejected with the TerriaError and no request is made, but the action at the
  start of \<^verbatim>\<open>loadCapabilities\<close> has already run. The document is cleared and
  \<^verbatim>\<open>isLoading\<close> is left true.
\<close>

theorem loadCapabilities_missing_url_mutates:
  "loadCapabilities (\<lambda>u. u) (\<lambda>u. Inr precipitationCapabilities) None
     \<lparr>obs_state = loadedStratum, obs_notified = []\<rparr>
   = (Inl (TerriaError ''Unable to load GetCapabilities''
             ''Could not load the Web Map Service (WMS) GetCapabilities document because the catalog item does not have a `url`.''),
      \<lparr>obs_state = \<lparr>capabilities = None, isLoading = True\<rparr>,
       obs_notified = [\<lparr>capabilities = None, isLoading = True\<rparr>]\<rparr>)"
  by (simp add: loadCapabilities_def loadCapabilities_request_def runInAction_def Let_def
      loadedStratum_def)

text \<open>
  Claim C2. An item with a url whose request is rejected: the rejection reaches the caller
  and the document stays undefined, but nothing handles the rejection in the stratum, and
  \<^verbatim>\<open>isLoading\<close> is left true.
\<close>

theorem loadCapabilities_rejected_keeps_loading:
  "loadCapabilities (\<lambda>u. u) (\<lambda>u. Inl (LoadRejected ''network error''))
     (item_getCapabilitiesUrl exampleTraits) \<lparr>obs_state = newStratum, obs_notified = []\<rparr>
   = (Inl (LoadRejected ''network error''),
      \<lparr>obs_state = \<lparr>capabilities = None, isLoading = True\<rparr>,
       obs_notified = [\<lparr>capabilities = None, isLoading = True\<rparr>]\<rparr>)"
  by (simp add: loadCapabilities_def loadCapabilities_request_def loadCapabilities_then_def
      runInAction_def newStratum_def Let_def exampleTraits_def)

lemma loadStep_notified:
  "obs_notified (loadStep proxy obs ev) = obs_notified obs @ shown ev"
proof (cases ev)
  case (Trigger u)
  then show ?thesis
    by (cases "obs_state obs")
      (simp add: loadCapabilities_request_def runInAction_def Let_def split: option.splits)
next
  case (Settle r)
  then show ?thesis
    by (cases r; cases "obs_state obs")
      (simp_all add: loadCapabilities_then_def runInAction_def Let_def)
qed

lemma foldl_loadStep_notified:
  "obs_notified (foldl (loadStep proxy) obs es) = obs_notified obs @ concat (map shown es)"
  by (induction es arbitrary: obs) (simp_all add: loadStep_notified)

lemma shown_consistent:
  "s \<in> set (shown ev) \<Longrightarrow>
     (isLoading s \<longrightarrow> capabilities s = None)
     \<and> (\<not> isLoading s \<longrightarrow> (\<exists>c. ev = Settle (Inr c) \<and> capabilities s = Some c))"
  by (cases ev rule: shown.cases) auto

lemma notified_after_trigger:
  assumes "s \<in> set (drop (length (obs_notified obs))
                   (obs_notified (foldl (loadStep proxy) (loadStep proxy obs (Trigger url)) es)))"
  shows "(isLoading s \<longrightarrow> capabilities s = None)
         \<and> (\<not> isLoading s \<longrightarrow> (\<exists>c'. Settle (Inr c') \<in> set es \<and> capabilities s = Some c'))"
proof -
  have "s \<in> set (shown (Trigger url)) \<or> (\<exists>ev \<in> set es. s \<in> set (shown ev))"
    using assms
    by (auto simp: foldl_loadStep_notified loadStep_notified simp del: loadStep.simps)
  then show ?thesis
  proof
    assume "s \<in> set (shown (Trigger url))"
    then show ?thesis by simp
  next
    assume "\<exists>ev \<in> set es. s \<in> set (shown ev)"
    then obtain ev where ev: "ev \<in> set es" "s \<in> set (shown ev)" by blast
    show ?thesis using shown_consistent [OF ev(2)] ev(1) by auto
  qed
qed

lemma loadStep_state:
  assumes "obs_notified obs \<noteq> []" and "obs_state obs = last (obs_notified obs)"
  shows "obs_notified (loadStep proxy obs ev) \<noteq> []
         \<and> obs_state (loadStep proxy obs ev) = last (obs_notified (loadStep proxy obs ev))"
proof (cases ev)
  case (Trigger u)
  then show ?thesis
    by (simp add: loadCapabilities_request_def runInAction_def Let_def split: option.splits)
next
  case (Settle r)
  then show ?thesis
    using assms by (cases r) (simp_all add: loadCapabilities_then_def runInAction_def Let_def)
qed

lemma foldl_loadStep_state:
  assumes "obs_notified obs \<noteq> []" and "obs_state obs = last (obs_notified obs)"
  shows "obs_notified (foldl (loadStep proxy) obs es) \<noteq> []
         \<and> obs_state (foldl (loadStep proxy) obs es) = last (obs_notified (foldl (loadStep proxy) obs es))"
  using assms
proof (induction es arbitrary: obs)
  case Nil
  then show ?case by simp
next
  case (Cons ev es)
  show ?case
    using Cons.IH [of "loadStep proxy obs ev"] loadStep_state [OF Cons.prems, of proxy ev]
    by simp
qed

lemma request_state:
  "obs_state (snd (loadCapabilities_request proxy url obs)) = \<lparr>capabilities = None, isLoading = True\<rparr>"
  by (cases "obs_state obs")
    (simp add: loadCapabilities_request_def runInAction_def Let_def split: option.splits)

lemma state_after_trigger:
  "obs_state (foldl (loadStep proxy) (loadStep proxy obs (Trigger url)) es)
   = last (obs_notified (foldl (loadStep proxy) (loadStep proxy obs (Trigger url)) es))
   \<and> obs_state (foldl (loadStep proxy) (loadStep proxy obs (Trigger url)) es)
     \<in> set (drop (length (obs_notified obs))
              (obs_notified (foldl (loadStep proxy) (loadStep proxy obs (Trigger url)) es)))"
proof -
  let ?start = "loadStep proxy obs (Trigger url)"
  let ?final = "foldl (loadStep proxy) ?start es"
  have n: "obs_notified ?start = obs_notified obs @ [\<lparr>capabilities = None, isLoading = True\<rparr>]"
    using loadStep_notified [of proxy obs "Trigger url"] by simp
  have s: "obs_state ?start = \<lparr>capabilities = None, isLoading = True\<rparr>"
    using request_state [of proxy url obs] by simp
  have "obs_notified ?start \<noteq> []" and "obs_state ?start = last (obs_notified ?start)"
    using n s by simp_all
  then have l: "obs_state ?final = last (obs_notified ?final)"
    using foldl_loadStep_state [of ?start proxy es] by blast
  have f: "obs_notified ?final
           = obs_notified obs @ (\<lparr>capabilities = None, isLoading = True\<rparr> # concat (map shown es))"
    using n by (simp add: foldl_loadStep_notified del: loadStep.simps)
  then have "last (obs_notified ?final)
             = last (\<lparr>capabilities = None, isLoading = True\<rparr> # concat (map shown es))"
    by simp
  moreover have "drop (length (obs_notified obs)) (obs_notified ?final)
             = \<lparr>capabilities = None, isLoading = True\<rparr> # concat (map shown es)"
    using f by simp
  ultimately have "last (obs_notified ?final)
      \<in> set (drop (length (obs_notified obs)) (obs_notified ?final))"
    using last_in_set [of "\<lparr>capabilities = None, isLoading = True\<rparr> # concat (map shown es)"]
    by simp
  with l show ?thesis by simp
qed

text \<open>
  Claim C3. The two assignments at the start of a load are one action, and so are the two
  at its fulfilment. After the start the stratum holds (no document, loading); a load
  that succeeds ends with the stratum holding (new document, not loading), having shown
  its observers these two states and nothing between. With loads that overlap, the state
  the stratum holds at any moment after the trigger of a load is the last state shown;
  that state and every state shown from the trigger on have no document while
  \<^verbatim>\<open>isLoading\<close> is true, and when \<^verbatim>\<open>isLoading\<close> is false their document is one that a
  request delivered after the trigger, never the document from before the trigger.
\<close>

theorem load_transitions_atomic:
  "obs_state (snd (loadCapabilities_request proxy url obs))
     = \<lparr>capabilities = None, isLoading = True\<rparr>
   \<and> (fromUrl (proxy u) = Inr c \<longrightarrow>
      loadCapabilities proxy fromUrl (Some u) obs
      = (Inr (),
         \<lparr>obs_state = \<lparr>capabilities = Some c, isLoading = False\<rparr>,
          obs_notified = obs_notified obs @ [\<lparr>capabilities = None, isLoading = True\<rparr>,
                                             \<lparr>capabilities = Some c, isLoading = False\<rparr>]\<rparr>))
   \<and> obs_state (foldl (loadStep proxy) (loadStep proxy obs (Trigger url)) es)
     = last (obs_notified (foldl (loadStep proxy) (loadStep proxy obs (Trigger url)) es))
   \<and> (\<forall>s \<in> set (obs_state (foldl (loadStep proxy) (loadStep proxy obs (Trigger url)) es)
                  # drop (length (obs_notified obs))
                      (obs_notified (foldl (loadStep proxy) (loadStep proxy obs (Trigger url)) es))).
        (isLoading s \<longrightarrow> capabilities s = None)
        \<and> (\<not> isLoading s \<longrightarrow> (\<exists>c'. Settle (Inr c') \<in> set es \<and> capabilities s = Some c')))"
proof (intro conjI)
  show "obs_state (snd (loadCapabilities_request proxy url obs))
     = \<lparr>capabilities = None, isLoading = True\<rparr>"
    by (rule request_state)
next
  show "fromUrl (proxy u) = Inr c \<longrightarrow>
      loadCapabilities proxy fromUrl (Some u) obs
      = (Inr (),
         \<lparr>obs_state = \<lparr>capabilities = Some c, isLoading = False\<rparr>,
          obs_notified = obs_notified obs @ [\<lparr>capabilities = None, isLoading = True\<rparr>,
                                             \<lparr>capabilities = Some c, isLoading = False\<rparr>]\<rparr>)"
    by (cases "obs_state obs")
      (simp add: loadCapabilities_def loadCapabilities_request_def loadCapabilities_then_def
        runInAction_def Let_def)
next
  show "obs_state (foldl (loadStep proxy) (loadStep proxy obs (Trigger url)) es)
     = last (obs_notified (foldl (loadStep proxy) (loadStep proxy obs (Trigger url)) es))"
    using state_after_trigger by blast
next
  show "\<forall>s \<in> set (obs_state (foldl (loadStep proxy) (loadStep proxy obs (Trigger url)) es)
                  # drop (length (obs_notified obs))
                      (obs_notified (foldl (loadStep proxy) (loadStep proxy obs (Trigger url)) es))).
        (isLoading s \<longrightarrow> capabilities s = None)
        \<and> (\<not> isLoading s \<longrightarrow> (\<exists>c'. Settle (Inr c') \<in> set es \<and> capabilities s = Some c'))"
  proof
    fix s
    assume "s \<in> set (obs_state (foldl (loadStep proxy) (loadStep proxy obs (Trigger url)) es)
                  # drop (length (obs_notified obs))
                      (obs_notified (foldl (loadStep proxy) (loadStep proxy obs (Trigger url)) es)))"
    then have "s \<in> set (drop (length (obs_notified obs))
                      (obs_notified (foldl (loadStep proxy) (loadStep proxy obs (Trigger url)) es)))"
      using state_after_trigger [of proxy obs url es] by auto
    then show "(isLoading s \<longrightarrow> capabilities s = None)
        \<and> (\<not> isLoading s \<longrightarrow> (\<exists>c'. Settle (Inr c') \<in> set es \<and> capabilities s = Some c'))"
      by (rule notified_after_trigger)
  qed
qed

theorem load_transitions_atomic_witness:
  "loadCapabilities (\<lambda>u. u) (\<lambda>u. Inr geoserverCapabilities) (Some ''http://example.com/wms'')
       \<lparr>obs_state = loadedStratum, obs_notified = []\<rparr>
     = (Inr (),
        \<lparr>obs_state = \<lparr>capabilities = Some geoserverCapabilities, isLoading = False\<rparr>,
         obs_notified = [\<lparr>capabilities = None, isLoading = True\<rparr>,
                         \<lparr>capabilities = Some geoserverCapabilities, isLoading = False\<rparr>]\<rparr>)
   \<and> foldl (loadStep (\<lambda>u. u))
        (loadStep (\<lambda>u. u) \<lparr>obs_state = loadedStratum, obs_notified = []\<rparr> (Trigger (Some ''http://example.com/wms'')))
        [Trigger (Some ''http://example.com/wms''), Settle (Inr geoserverCapabilities)]
     = \<lparr>obs_state = \<lparr>capabilities = Some geoserverCapabilities, isLoading = False\<rparr>,
        obs_notified = [\<lparr>capabilities = None, isLoading = True\<rparr>,
                        \<lparr>capabilities = None, isLoading = True\<rparr>,
                        \<lparr>capabilities = Some geoserverCapabilities, isLoading = False\<rparr>]\<rparr>"
proof -
  have evaluated: ?thesis
    by (simp add: loadCapabilities_def loadCapabilities_request_def loadCapabilities_then_def
        runInAction_def Let_def loadedStratum_def)
  show ?thesis
    using load_transitions_atomic
      [where fromUrl = "\<lambda>u. Inr geoserverCapabilities" and proxy = "\<lambda>u. u"
         and u = "''http://example.com/wms''" and c = geoserverCapabilities
         and obs = "\<lparr>obs_state = loadedStratum, obs_notified = []\<rparr>"
         and url = "Some ''http://example.com/wms''"
         and es = "[Trigger (Some ''http://example.com/wms''), Settle (Inr geoserverCapabilities)]"]
    by (simp only: evaluated simp_thms)
qed

section \<open>Map items and the memoized builder\<close>

lemma cacheInvariant_empty: "cacheInvariant emptyCache"
  by (simp add: cacheInvariant_def emptyCache_def)

lemma cacheInvariant_createImageryProvider:
  assumes "cacheInvariant cache"
  shows "cacheInvariant (snd (createImageryProvider g traits st time cache))"
proof -
  let ?deps = "dependenciesRead traits st"
  let ?v = "createImageryProviderBody g traits st time (nextId cache)"
  let ?rebuilt = "\<lparr>entries = (entries cache)(time \<mapsto> \<lparr>entry_dependencies = ?deps, entry_value = ?v\<rparr>),
                   nextId = Suc (nextId cache)\<rparr>"
  have r: "cacheInvariant ?rebuilt"
    unfolding cacheInvariant_def
  proof (intro allI impI)
    fix time' e
    assume e: "entries ?rebuilt time' = Some e"
    show "case entry_dependencies e of
            ReadLoading \<Rightarrow> entry_value e = None
          | ReadAll u l c \<Rightarrow> \<exists>i < nextId ?rebuilt. \<exists>r. entry_value e = Some (newImageryProvider i u l r)"
    proof (cases "time' = time")
      case True
      with e have "e = \<lparr>entry_dependencies = ?deps, entry_value = ?v\<rparr>" by simp
      then show ?thesis
        by (auto simp: dependenciesRead_def createImageryProviderBody_def)
    next
      case False
      with e have "entries cache time' = Some e" by simp
      with assms have "case entry_dependencies e of
            ReadLoading \<Rightarrow> entry_value e = None
          | ReadAll u l c \<Rightarrow> \<exists>i < nextId cache. \<exists>r. entry_value e = Some (newImageryProvider i u l r)"
        unfolding cacheInvariant_def by blast
      then show ?thesis
        by (cases "entry_dependencies e") (auto intro: less_SucI)
    qed
  qed
  show ?thesis
    using assms r by (auto simp: createImageryProvider_def Let_def split: option.splits)
qed

lemma cacheInvariant_mapItems:
  assumes "cacheInvariant cache"
  shows "cacheInvariant (snd (mapItems g traits st cache))"
proof -
  have "snd (mapItems g traits st cache) = snd (createImageryProvider g traits st ''now'' cache)"
    by (cases "createImageryProvider g traits st ''now'' cache")
      (simp add: mapItems_def currentImageryParts_def nextImageryParts_def
        currentDiscreteTime_def nextDiscreteTime_def split: option.splits)
  then show ?thesis using assms by (simp add: cacheInvariant_createImageryProvider)
qed


lemma createImageryProvider_loading:
  assumes "isLoading st" and "cacheInvariant cache"
  shows "fst (createImageryProvider g traits st time cache) = None"
proof (cases "entries cache time")
  case None
  with assms(1) show ?thesis
    by (simp add: createImageryProvider_def Let_def createImageryProviderBody_def)
next
  case (Some e)
  show ?thesis
  proof (cases "entry_dependencies e = ReadLoading")
    case True
    with assms(2) Some have "entry_value e = None"
      unfolding cacheInvariant_def by fastforce
    with assms(1) Some True show ?thesis
      by (simp add: createImageryProvider_def Let_def dependenciesRead_def)
  next
    case False
    with assms(1) Some show ?thesis
      by (simp add: createImageryProvider_def Let_def dependenciesRead_def
          createImageryProviderBody_def)
  qed
qed

text \<open>
  Claim C4. While \<^verbatim>\<open>isLoading\<close> of the stratum is true, the imagery-provider builder gives
  undefined for every time and \<^verbatim>\<open>mapItems\<close> is empty, whatever the builder has cached.
\<close>

theorem loading_yields_no_map_items:
  assumes "isLoading st" and "cacheInvariant cache"
  shows "fst (createImageryProvider g traits st time cache) = None
         \<and> fst (mapItems g traits st cache) = []"
proof
  show "fst (createImageryProvider g traits st time cache) = None"
    using assms by (rule createImageryProvider_loading)
next
  have "fst (createImageryProvider g traits st ''now'' cache) = None"
    using assms by (rule createImageryProvider_loading)
  then show "fst (mapItems g traits st cache) = []"
    by (cases "createImageryProvider g traits st ''now'' cache")
      (simp add: mapItems_def currentImageryParts_def nextImageryParts_def
        currentDiscreteTime_def nextDiscreteTime_def)
qed


theorem loading_yields_no_map_items_witness:
  "isLoading loadingStratum
   \<and> cacheInvariant (snd (mapItems exampleRectangle exampleTraits loadedStratum emptyCache))
   \<and> map_option entry_value
        (entries (snd (mapItems exampleRectangle exampleTraits loadedStratum emptyCache)) ''now'')
      = Some (Some (newImageryProvider 0 (Some ''http://example.com/wms'')
                      (LayersString ''precipitation'') (Some (110, -45, 155, -10))))
   \<and> fst (mapItems exampleRectangle exampleTraits loadingStratum
            (snd (mapItems exampleRectangle exampleTraits loadedStratum emptyCache))) = []"
proof -
  have l: "isLoading loadingStratum"
    by (simp add: loadingStratum_def)
  have inv: "cacheInvariant (snd (mapItems exampleRectangle exampleTraits loadedStratum emptyCache))"
    by (intro cacheInvariant_mapItems cacheInvariant_empty)
  have r: "rectangle exampleRectangle (Some precipitationCapabilities) (LayersString ''precipitation'')
           = Some (110, -45, 155, -10)"
    by (simp add: rectangle_def capabilitiesLayers_def new_Map_def map_values_def
        precipitationCapabilities_def precipitationLayer_def exampleRectangle_def)
  have e: "map_option entry_value
        (entries (snd (mapItems exampleRectangle exampleTraits loadedStratum emptyCache)) ''now'')
      = Some (Some (newImageryProvider 0 (Some ''http://example.com/wms'')
                      (LayersString ''precipitation'') (Some (110, -45, 155, -10))))"
    using r
    by (simp add: mapItems_def currentImageryParts_def nextImageryParts_def
        currentDiscreteTime_def nextDiscreteTime_def createImageryProvider_def Let_def
        createImageryProviderBody_def emptyCache_def loadedStratum_def exampleTraits_def)
  show ?thesis
    using loading_yields_no_map_items [OF l inv, of exampleRectangle exampleTraits "''now''"] l inv e
    by simp
qed

lemma createImageryProvider_entry:
  "entries (snd (createImageryProvider g traits st time cache)) time
   = Some \<lparr>entry_dependencies = dependenciesRead traits st,
           entry_value = fst (createImageryProvider g traits st time cache)\<rparr>"
  by (auto simp: createImageryProvider_def Let_def split: option.splits)

lemma createImageryProvider_hit:
  "entries cache time = Some \<lparr>entry_dependencies = dependenciesRead traits st, entry_value = v\<rparr>
   \<Longrightarrow> createImageryProvider g traits st time cache = (v, cache)"
  by (simp add: createImageryProvider_def Let_def)

lemma createImageryProvider_miss:
  "entries cache time = Some e \<Longrightarrow> entry_dependencies e \<noteq> dependenciesRead traits st
   \<Longrightarrow> createImageryProvider g traits st time cache =
       (createImageryProviderBody g traits st time (nextId cache),
        \<lparr>entries = (entries cache)(time \<mapsto>
            \<lparr>entry_dependencies = dependenciesRead traits st,
             entry_value = createImageryProviderBody g traits st time (nextId cache)\<rparr>),
         nextId = Suc (nextId cache)\<rparr>)"
  by (simp add: createImageryProvider_def Let_def)

lemma createImageryProvider_other:
  "time' \<noteq> time \<Longrightarrow> entries (snd (createImageryProvider g traits st time cache)) time' = entries cache time'"
  by (auto simp: createImageryProvider_def Let_def split: option.splits)

lemma cached_provider_id:
  assumes "cacheInvariant cache" and "entries cache time = Some e" and "entry_value e = Some p"
  shows "provider_id p < nextId cache"
proof -
  from assms(1,2) have "case entry_dependencies e of
            ReadLoading \<Rightarrow> entry_value e = None
          | ReadAll u l c \<Rightarrow> \<exists>i < nextId cache. \<exists>r. entry_value e = Some (newImageryProvider i u l r)"
    unfolding cacheInvariant_def by blast
  with assms(3) show ?thesis
    by (cases "entry_dependencies e") (auto simp: newImageryProvider_def)
qed

lemma cached_provider_ids:
  assumes "cacheInvariant cache" and "entries cache t = Some e" and "entry_value e = Some p"
  shows "provider_id p \<noteq> nextId cache"
  using cached_provider_id [OF assms] by simp

lemma createImageryProvider_not_loading:
  assumes "cacheInvariant cache" and "fst (createImageryProvider g traits st time cache) = Some q"
  shows "\<not> isLoading st"
  using assms createImageryProvider_loading [of st cache g traits time] by auto

text \<open>
  Claim C5. The builder is memoized by its time argument. Asked again with the inputs
  unchanged it gives the same object and leaves the cache as it is; a request for one
  time leaves the entries of every other time as they are; after a change of the url, of
  the layers or of the payload, the request builds a new object from the new inputs,
  under an identity that differs from that of the object cached before and of every
  other object in the cache; and a change of an input that the builder does not read
  (opacity, show) changes nothing.
\<close>

theorem createImageryProvider_memoized:
  "(createImageryProvider g traits st time cache = (p, cacheA) \<longrightarrow>
      createImageryProvider g traits st time cacheA = (p, cacheA))
   \<and> (createImageryProvider g traits st time cache = (p, cacheA) \<and> time' \<noteq> time \<longrightarrow>
      entries cacheA time' = entries cache time')
   \<and> (cacheInvariant cache \<and> createImageryProvider g traits st time cache = (Some q, cacheA)
      \<and> \<not> isLoading st'
      \<and> (item_url traits' \<noteq> item_url traits \<or> item_layers traits' \<noteq> item_layers traits
          \<or> capabilities st' \<noteq> capabilities st) \<longrightarrow>
      (\<exists>q' cacheB. createImageryProvider g traits' st' time cacheA = (Some q', cacheB)
         \<and> q' = newImageryProvider (nextId cacheA) (item_url traits') (item_layers traits')
               (rectangle g (capabilities st') (item_layers traits'))
         \<and> provider_id q' \<noteq> provider_id q
         \<and> (\<forall>t e x. entries cacheA t = Some e \<and> entry_value e = Some x \<longrightarrow>
               provider_id x \<noteq> provider_id q')))
   \<and> createImageryProvider g (traits\<lparr>item_opacity := opacity, item_show := visible\<rparr>) st time cache
      = createImageryProvider g traits st time cache"
proof (intro conjI impI)
  assume a: "createImageryProvider g traits st time cache = (p, cacheA)"
  have "entries cacheA time = Some \<lparr>entry_dependencies = dependenciesRead traits st, entry_value = p\<rparr>"
    using createImageryProvider_entry [of g traits st time cache] a by simp
  then show "createImageryProvider g traits st time cacheA = (p, cacheA)"
    by (rule createImageryProvider_hit)
next
  assume "createImageryProvider g traits st time cache = (p, cacheA) \<and> time' \<noteq> time"
  then show "entries cacheA time' = entries cache time'"
    using createImageryProvider_other [of time' time g traits st cache] by simp
next
  assume a: "cacheInvariant cache \<and> createImageryProvider g traits st time cache = (Some q, cacheA)
      \<and> \<not> isLoading st'
      \<and> (item_url traits' \<noteq> item_url traits \<or> item_layers traits' \<noteq> item_layers traits
          \<or> capabilities st' \<noteq> capabilities st)"
  have inv1: "cacheInvariant cacheA"
    using a cacheInvariant_createImageryProvider [of cache g traits st time] by simp
  have e1: "entries cacheA time = Some \<lparr>entry_dependencies = dependenciesRead traits st, entry_value = Some q\<rparr>"
    using createImageryProvider_entry [of g traits st time cache] a by simp
  have nl: "\<not> isLoading st"
    using a createImageryProvider_not_loading [of cache g traits st time q] by simp
  have ne: "entry_dependencies \<lparr>entry_dependencies = dependenciesRead traits st, entry_value = Some q\<rparr>
            \<noteq> dependenciesRead traits' st'"
    using a nl by (auto simp: dependenciesRead_def)
  have lt: "provider_id q \<noteq> nextId cacheA"
    using cached_provider_ids [OF inv1 e1] by simp
  have b: "createImageryProvider g traits' st' time cacheA =
       (createImageryProviderBody g traits' st' time (nextId cacheA),
        \<lparr>entries = (entries cacheA)(time \<mapsto>
            \<lparr>entry_dependencies = dependenciesRead traits' st',
             entry_value = createImageryProviderBody g traits' st' time (nextId cacheA)\<rparr>),
         nextId = Suc (nextId cacheA)\<rparr>)"
    using e1 ne by (rule createImageryProvider_miss)
  have c: "createImageryProviderBody g traits' st' time (nextId cacheA)
      = Some (newImageryProvider (nextId cacheA) (item_url traits') (item_layers traits')
               (rectangle g (capabilities st') (item_layers traits')))"
    using a by (simp add: createImageryProviderBody_def)
  have i: "provider_id (newImageryProvider (nextId cacheA) (item_url traits') (item_layers traits')
               (rectangle g (capabilities st') (item_layers traits'))) = nextId cacheA"
    by (simp add: newImageryProvider_def)
  have d: "\<forall>t e x. entries cacheA t = Some e \<and> entry_value e = Some x \<longrightarrow>
               provider_id x \<noteq> nextId cacheA"
    using cached_provider_ids [OF inv1] by blast
  show "\<exists>q' cacheB. createImageryProvider g traits' st' time cacheA = (Some q', cacheB)
         \<and> q' = newImageryProvider (nextId cacheA) (item_url traits') (item_layers traits')
               (rectangle g (capabilities st') (item_layers traits'))
         \<and> provider_id q' \<noteq> provider_id q
         \<and> (\<forall>t e x. entries cacheA t = Some e \<and> entry_value e = Some x \<longrightarrow>
               provider_id x \<noteq> provider_id q')"
    using b c i lt d by simp
next
  show "createImageryProvider g (traits\<lparr>item_opacity := opacity, item_show := visible\<rparr>) st time cache
      = createImageryProvider g traits st time cache"
    by (simp add: createImageryProvider_def dependenciesRead_def createImageryProviderBody_def)
qed

theorem createImageryProvider_memoized_witness:
  "cacheInvariant (emptyCache :: (int \<times> int \<times> int \<times> int) transformerCache)
   \<and> map_option provider_id
       (fst (createImageryProvider exampleRectangle exampleTraits loadedStratum ''now'' emptyCache))
     = Some 0
   \<and> map_option provider_id
       (fst (createImageryProvider exampleRectangle exampleTraits loadedStratum ''now''
          (snd (createImageryProvider exampleRectangle exampleTraits loadedStratum ''now'' emptyCache))))
     = Some 0
   \<and> map_option provider_id
       (fst (createImageryProvider exampleRectangle movedTraits loadedStratum ''now''
          (snd (createImageryProvider exampleRectangle exampleTraits loadedStratum ''now'' emptyCache))))
     = Some 1
   \<and> rectangle exampleRectangle (capabilities reloadedStratum) (item_layers exampleTraits)
     = rectangle exampleRectangle (capabilities loadedStratum) (item_layers exampleTraits)
   \<and> map_option provider_id
       (fst (createImageryProvider exampleRectangle exampleTraits reloadedStratum ''now''
          (snd (createImageryProvider exampleRectangle exampleTraits loadedStratum ''now'' emptyCache))))
     = Some 1"
proof -
  let ?built = "newImageryProvider 0 (Some ''http://example.com/wms'')
                  (LayersString ''precipitation'') (Some (110 :: int, -45 :: int, 155 :: int, -10 :: int))"
  let ?cached = "\<lparr>entries = Map.empty(''now'' \<mapsto>
                     \<lparr>entry_dependencies = ReadAll (Some ''http://example.com/wms'')
                          (LayersString ''precipitation'') (Some precipitationCapabilities),
                      entry_value = Some ?built\<rparr>),
                   nextId = Suc 0\<rparr>"
  have r: "rectangle exampleRectangle (Some precipitationCapabilities) (LayersString ''precipitation'')
           = Some (110, -45, 155, -10)"
    by (simp add: rectangle_def capabilitiesLayers_def new_Map_def map_values_def
        precipitationCapabilities_def precipitationLayer_def exampleRectangle_def)
  have r': "rectangle exampleRectangle (Some (precipitationCapabilities\<lparr>Service := None\<rparr>))
              (LayersString ''precipitation'')
           = Some (110, -45, 155, -10)"
    by (simp add: rectangle_def capabilitiesLayers_def new_Map_def map_values_def
        precipitationCapabilities_def precipitationLayer_def exampleRectangle_def)
  have ne: "precipitationCapabilities\<lparr>Service := None\<rparr> \<noteq> precipitationCapabilities"
    by (simp add: precipitationCapabilities_def)
  have f: "createImageryProvider exampleRectangle exampleTraits loadedStratum ''now'' emptyCache
           = (Some ?built, ?cached)"
    using r
    by (simp add: createImageryProvider_def Let_def createImageryProviderBody_def
        dependenciesRead_def emptyCache_def loadedStratum_def exampleTraits_def)
  have s: "createImageryProvider exampleRectangle exampleTraits loadedStratum ''now'' ?cached
           = (Some ?built, ?cached)"
    by (simp add: createImageryProvider_def Let_def dependenciesRead_def loadedStratum_def
        exampleTraits_def)
  have m: "fst (createImageryProvider exampleRectangle movedTraits loadedStratum ''now'' ?cached)
           = Some (newImageryProvider (Suc 0) (Some ''http://example.org/wms'')
               (LayersString ''precipitation'') (Some (110, -45, 155, -10)))"
    using r
    by (simp add: createImageryProvider_def Let_def createImageryProviderBody_def
        dependenciesRead_def loadedStratum_def exampleTraits_def movedTraits_def)
  have n: "fst (createImageryProvider exampleRectangle exampleTraits reloadedStratum ''now'' ?cached)
           = Some (newImageryProvider (Suc 0) (Some ''http://example.com/wms'')
               (LayersString ''precipitation'') (Some (110, -45, 155, -10)))"
    using r' ne
    by (simp add: createImageryProvider_def Let_def createImageryProviderBody_def
        dependenciesRead_def reloadedStratum_def exampleTraits_def)
  have same: "rectangle exampleRectangle (capabilities reloadedStratum) (item_layers exampleTraits)
     = rectangle exampleRectangle (capabilities loadedStratum) (item_layers exampleTraits)"
    using r r' by (simp add: reloadedStratum_def loadedStratum_def exampleTraits_def)
  have i: "cacheInvariant (emptyCache :: (int \<times> int \<times> int \<times> int) transformerCache)"
    by (rule cacheInvariant_empty)
  have pid: "\<And>n u l r. provider_id (newImageryProvider n u l r) = n"
    by (simp add: newImageryProvider_def)
  have evaluated: ?thesis
    by (simp add: i f s m n same pid)
  show ?thesis
    using createImageryProvider_memoized
      [where g = exampleRectangle and traits = exampleTraits and st = loadedStratum
         and time = "''now''" and cache = emptyCache
         and p = "Some ?built" and q = ?built and cacheA = ?cached
         and traits' = exampleTraits and st' = reloadedStratum]
    by (simp only: evaluated simp_thms)
qed

section \<open>The group traits\<close>

text \<open>
  Claim C9, as stated, at a base class that is itself the result of the mixin: the base
  recognizes \<^verbatim>\<open>isOpen\<close> and \<^verbatim>\<open>members\<close> already, and the properties recognized after the
  mixin are the same set, not a strictly larger one.
\<close>

theorem mixGroupTraits_strict_superset_counterexample:
  "\<not> recognizedProperties (mixGroupTraits []) \<subset> recognizedProperties (mixGroupTraits (mixGroupTraits []))"
  by (auto simp: mixGroupTraits_def propertyNames_def recognizedProperties_def
      isOpenTrait_def membersTrait_def)


text \<open>
  Claim C9, amended. The declarations of the mixin's class are those of the base followed
  by \<^verbatim>\<open>isOpen\<close> and \<^verbatim>\<open>members\<close>; the properties it recognizes are those of the base
  together with these two, so it recognizes all the base does, and strictly more exactly
  when the base does not recognize both of them already.
\<close>

theorem mixGroupTraits_properties:
  "propertyNames (mixGroupTraits Base) = propertyNames Base @ [''isOpen'', ''members'']
   \<and> recognizedProperties (mixGroupTraits Base) = recognizedProperties Base \<union> {''isOpen'', ''members''}
   \<and> recognizedProperties Base \<subseteq> recognizedProperties (mixGroupTraits Base)
   \<and> (recognizedProperties Base \<subset> recognizedProperties (mixGroupTraits Base)
        \<longleftrightarrow> \<not> {''isOpen'', ''members''} \<subseteq> recognizedProperties Base)"
  by (auto simp: mixGroupTraits_def propertyNames_def recognizedProperties_def
      isOpenTrait_def membersTrait_def)

theorem mixGroupTraits_properties_witness:
  "propertyNames (mixGroupTraits exampleBaseTraits) = [''url'', ''isOpen'', ''members'']
   \<and> recognizedProperties exampleBaseTraits \<subset> recognizedProperties (mixGroupTraits exampleBaseTraits)
   \<and> \<not> {''isOpen'', ''members''} \<subseteq> recognizedProperties exampleBaseTraits"
  using mixGroupTraits_properties [of exampleBaseTraits]
  by (auto simp: propertyNames_def recognizedProperties_def exampleBaseTraits_def)

end
